theory Spec2Isabelle
  imports Main
begin

section \<open>Comment snapshots\<close>

text \<open>
  A snapshot is the \<^verbatim>\<open>items\<close> array of one \<^verbatim>\<open>drive_comment_list\<close> response: a list of
  comments, each with an optional \<^verbatim>\<open>reply_list\<close> object holding an optional \<^verbatim>\<open>replies\<close>
  array. A field the JavaScript object may lack is an \<open>option\<close>; the code tests these fields
  for truthiness, and an object or an array (even an empty one) is truthy, so \<open>Some\<close> is
  truthy and \<open>None\<close> is falsy. A string is truthy when it is not empty.
\<close>

record reply =
  reply_id :: "string option"
  user_name :: "string option"
  create_time :: "string option"
  reply_text :: "string option"

record reply_list =
  replies :: "reply list option"

record comment =
  comment_id :: string
  reply_list :: "reply_list option"

type_synonym snapshot = "comment list"

section \<open>The diff: detectNewComments\<close>

text \<open>
  \<^verbatim>\<open>cachedComments.forEach(comment => { if (comment.reply_list && comment.reply_list.replies)
  comment.reply_list.replies.forEach(reply => { if (reply.reply_id) cachedCommentIds.add(reply.reply_id) }) })\<close>
  Each \<^verbatim>\<open>forEach\<close> is a \<open>fold\<close> over the array, threading the set being filled.
\<close>

definition add_reply_id :: "reply \<Rightarrow> string set \<Rightarrow> string set" where
  "add_reply_id reply ids =
     (case reply_id reply of
        None \<Rightarrow> ids
      | Some i \<Rightarrow> if i \<noteq> [] then insert i ids else ids)"

definition add_comment_ids :: "comment \<Rightarrow> string set \<Rightarrow> string set" where
  "add_comment_ids c ids =
     (case reply_list c of
        None \<Rightarrow> ids
      | Some rl \<Rightarrow>
          (case replies rl of
             None \<Rightarrow> ids
           | Some rs \<Rightarrow> fold add_reply_id rs ids))"

definition cachedCommentIds :: "snapshot \<Rightarrow> string set" where
  "cachedCommentIds cachedComments = fold add_comment_ids cachedComments {}"

text \<open>
  The object pushed for a new reply:
  \<^verbatim>\<open>{...comment, reply_list: {...comment.reply_list, replies: [reply]}}\<close>.
\<close>

definition single_reply :: "comment \<Rightarrow> reply_list \<Rightarrow> reply \<Rightarrow> comment" where
  "single_reply c rl reply = c\<lparr>reply_list := Some (rl\<lparr>replies := Some [reply]\<rparr>)\<rparr>"

definition push_new_reply ::
  "string set \<Rightarrow> comment \<Rightarrow> reply_list \<Rightarrow> reply \<Rightarrow> comment list \<Rightarrow> comment list" where
  "push_new_reply ids c rl reply newComments =
     (case reply_id reply of
        None \<Rightarrow> newComments
      | Some i \<Rightarrow>
          if i \<noteq> [] \<and> i \<notin> ids then newComments @ [single_reply c rl reply]
          else newComments)"

definition scan_comment :: "string set \<Rightarrow> comment \<Rightarrow> comment list \<Rightarrow> comment list" where
  "scan_comment ids c newComments =
     (case reply_list c of
        None \<Rightarrow> newComments
      | Some rl \<Rightarrow>
          (case replies rl of
             None \<Rightarrow> newComments
           | Some rs \<Rightarrow> fold (push_new_reply ids c rl) rs newComments))"

text \<open>
  \<^verbatim>\<open>detectNewComments(cachedComments, currentComments)\<close>. The first branch also prints the
  number of current comments; the console line is left out of this pure function.
\<close>

definition detectNewComments :: "snapshot \<Rightarrow> snapshot \<Rightarrow> comment list" where
  "detectNewComments cachedComments currentComments =
     (if length cachedComments = 0 then []
      else fold (scan_comment (cachedCommentIds cachedComments)) currentComments [])"


section \<open>The diff as the specification words it\<close>

text \<open>
  The replies of a comment, the identifiers collected from all reply lists of a snapshot,
  a reply tagged with its parent comment, and the replies of \<open>new\<close> whose identifier is
  not among those of \<open>old\<close>, in the order of \<open>new\<close>. An identifier counts when it is a
  non-empty string (the code tests \<^verbatim>\<open>reply.reply_id\<close> for truthiness).
\<close>

definition replies_of :: "comment \<Rightarrow> reply list" where
  "replies_of c =
     (case reply_list c of
        None \<Rightarrow> []
      | Some rl \<Rightarrow> (case replies rl of None \<Rightarrow> [] | Some rs \<Rightarrow> rs))"

definition reply_ids :: "snapshot \<Rightarrow> string set" where
  "reply_ids old =
     (\<Union>c \<in> set old. \<Union>r \<in> set (replies_of c).
        (case reply_id r of None \<Rightarrow> {} | Some i \<Rightarrow> if i = [] then {} else {i}))"

definition with_parent :: "comment \<Rightarrow> reply \<Rightarrow> comment" where
  "with_parent c r =
     c\<lparr>reply_list := map_option (\<lambda>rl. rl\<lparr>replies := Some [r]\<rparr>) (reply_list c)\<rparr>"

definition is_new :: "snapshot \<Rightarrow> reply \<Rightarrow> bool" where
  "is_new old r =
     (case reply_id r of None \<Rightarrow> False | Some i \<Rightarrow> i \<noteq> [] \<and> i \<notin> reply_ids old)"

definition new_replies :: "snapshot \<Rightarrow> snapshot \<Rightarrow> comment list" where
  "new_replies old new =
     concat (map (\<lambda>c. map (with_parent c) (filter (is_new old) (replies_of c))) new)"


section \<open>One polling tick: invokeGetCommentsTools\<close>

type_synonym docId = string

type_synonym cache = "docId \<rightharpoonup> snapshot"

text \<open>A thrown or rejected JavaScript error: its \<^verbatim>\<open>name\<close> and its \<^verbatim>\<open>message\<close>.\<close>

record js_error =
  err_name :: string
  err_message :: string

datatype 'a settled = Resolved 'a | Rejected js_error

text \<open>
  What one tick finds in its environment: whether \<^verbatim>\<open>mcpClient\<close> is set, how
  \<^verbatim>\<open>mcpClient.getTools()\<close> settles (the names of the tools) and how
  \<^verbatim>\<open>commentTool.invoke(...)\<close> settles (the response text).
\<close>

record tick_env =
  mcpClient_set :: bool
  getTools_settles :: "string list settled"
  invoke_settles :: "string settled"

text \<open>What a tick does that can be observed, in order.\<close>

datatype effect =
    LogError string
  | LogNoTool
  | CacheSet docId snapshot
  | LogDetected nat
  | LogComment nat comment
  | CallAgent comment docId
  | LogRule

text \<open>
  \<^verbatim>\<open>commentsCache.get(docId) || []\<close>: an array is truthy, also the empty one, so only a
  missing entry is replaced.
\<close>

definition cached_or_empty :: "cache \<Rightarrow> docId \<Rightarrow> snapshot" where
  "cached_or_empty commentsCache docId =
     (case commentsCache docId of None \<Rightarrow> [] | Some cachedComments \<Rightarrow> cachedComments)"

text \<open>
  The lines between the arrival of the response and the dispatch loop. They contain no
  \<^verbatim>\<open>await\<close>. The parameter \<open>parseItems\<close> stands for \<^verbatim>\<open>JSON.parse(result)\<close> followed by
  \<^verbatim>\<open>responseData.items || []\<close>: it gives the error when either throws, and the snapshot
  otherwise. The result is the new replies, the effects and the cache.
\<close>

definition after_fetch ::
  "(string \<Rightarrow> js_error + snapshot) \<Rightarrow> docId \<Rightarrow> string \<Rightarrow> cache
     \<Rightarrow> js_error + (comment list \<times> effect list \<times> cache)" where
  "after_fetch parseItems docId result commentsCache =
     (case parseItems result of
        Inl e \<Rightarrow> Inl e
      | Inr currentComments \<Rightarrow>
          (let cachedComments = cached_or_empty commentsCache docId;
               newComments = detectNewComments cachedComments currentComments
           in Inr (newComments, [CacheSet docId currentComments],
                   commentsCache(docId \<mapsto> currentComments))))"

text \<open>
  The dispatch loop
  \<^verbatim>\<open>for (let index = 0; index < newComments.length; index++) { const comment = newComments[index]; ... }\<close>
  from a given index on. Each round prints the line of the comment and runs
  \<^verbatim>\<open>try { await processNewCommentWithAgent(comment, docId) } catch (error) { console.error(...) }\<close>.
  The parameter \<open>agent\<close> says how the call of a round ends: \<open>None\<close> when it returns, the
  message of the error when it throws.
\<close>

fun dispatch_from ::
  "(nat \<Rightarrow> comment \<Rightarrow> docId \<Rightarrow> string option) \<Rightarrow> docId \<Rightarrow> nat \<Rightarrow> comment list
     \<Rightarrow> effect list" where
  "dispatch_from agent docId index [] = []"
| "dispatch_from agent docId index (c # rest) =
     [LogComment (index + 1) c, CallAgent c docId]
       @ (case agent index c docId of None \<Rightarrow> [] | Some msg \<Rightarrow> [LogError msg])
       @ dispatch_from agent docId (index + 1) rest"

definition dispatch_all ::
  "(nat \<Rightarrow> comment \<Rightarrow> docId \<Rightarrow> string option) \<Rightarrow> docId \<Rightarrow> comment list \<Rightarrow> effect list" where
  "dispatch_all agent docId newComments =
     (if length newComments > 0
      then [LogDetected (length newComments)]
           @ dispatch_from agent docId 0 newComments @ [LogRule]
      else [])"

text \<open>The \<^verbatim>\<open>catch\<close> block of the tick: it logs and returns \<^verbatim>\<open>null\<close>.\<close>

definition tick_failed :: "js_error \<Rightarrow> effect list" where
  "tick_failed e =
     LogError (err_message e) #
       (if err_name e = ''ToolException'' then [LogError (err_message e)] else [])"

text \<open>
  \<^verbatim>\<open>invokeGetCommentsTools(docId)\<close>: the value returned (\<open>None\<close> for \<^verbatim>\<open>null\<close>), the effects in
  order, and the cache afterwards.
\<close>

definition invokeGetCommentsTools ::
  "(string \<Rightarrow> js_error + snapshot) \<Rightarrow> (nat \<Rightarrow> comment \<Rightarrow> docId \<Rightarrow> string option) \<Rightarrow> tick_env
     \<Rightarrow> docId \<Rightarrow> cache \<Rightarrow> string option \<times> effect list \<times> cache" where
  "invokeGetCommentsTools parseItems agent env docId commentsCache =
     (if \<not> mcpClient_set env then (None, [LogError ''mcpClient''], commentsCache)
      else case getTools_settles env of
        Rejected e \<Rightarrow> (None, tick_failed e, commentsCache)
      | Resolved tools \<Rightarrow>
          if ''drive_comment_list'' \<notin> set tools then (None, [LogNoTool], commentsCache)
          else (case invoke_settles env of
            Rejected e \<Rightarrow> (None, tick_failed e, commentsCache)
          | Resolved result \<Rightarrow>
              (case after_fetch parseItems docId result commentsCache of
                 Inl e \<Rightarrow> (None, tick_failed e, commentsCache)
               | Inr (newComments, effs, commentsCache') \<Rightarrow>
                   (Some result, effs @ dispatch_all agent docId newComments, commentsCache'))))"

text \<open>The comments handed to the agent, read off a list of effects.\<close>

definition dispatched :: "effect list \<Rightarrow> comment list" where
  "dispatched effs = concat (map (\<lambda>e. case e of CallAgent c d \<Rightarrow> [c] | _ \<Rightarrow> []) effs)"

definition is_CacheSet :: "effect \<Rightarrow> bool" where
  "is_CacheSet e = (case e of CacheSet d v \<Rightarrow> True | _ \<Rightarrow> False)"

section \<open>Runs of ticks, and sample data\<close>

text \<open>An environment in which the fetch is reached and resolves with the given text.\<close>

definition ex_env :: "string \<Rightarrow> tick_env" where
  "ex_env result = \<lparr>mcpClient_set = True, getTools_settles = Resolved [''drive_comment_list''],
             invoke_settles = Resolved result\<rparr>"

text \<open>
  Successive ticks of one document, each of which fetches the next snapshot of the list
  with success: the comments handed to the agent at each tick, and the cache at the end.
\<close>

fun poll_run ::
  "(nat \<Rightarrow> comment \<Rightarrow> docId \<Rightarrow> string option) \<Rightarrow> docId \<Rightarrow> snapshot list \<Rightarrow> cache
     \<Rightarrow> comment list list \<times> cache" where
  "poll_run agent docId [] commentsCache = ([], commentsCache)"
| "poll_run agent docId (fetched # rest) commentsCache =
     (case invokeGetCommentsTools (\<lambda>result. Inr fetched) agent (ex_env '''') docId commentsCache of
        (res, effs, commentsCache') \<Rightarrow>
          (case poll_run agent docId rest commentsCache' of
             (reports, final) \<Rightarrow> (dispatched effs # reports, final)))"


text \<open>Two replies and a comment that holds a given list of replies.\<close>

definition ex_r1 :: reply where
  "ex_r1 = \<lparr>reply_id = Some ''r1'', user_name = Some ''ann'', create_time = Some ''1700000000'',
            reply_text = Some ''add a title''\<rparr>"

definition ex_r2 :: reply where
  "ex_r2 = \<lparr>reply_id = Some ''r2'', user_name = Some ''bob'', create_time = Some ''1700000060'',
            reply_text = Some ''fix the typo''\<rparr>"

definition ex_comment :: "reply list \<Rightarrow> comment" where
  "ex_comment rs = \<lparr>comment_id = ''c1'', reply_list = Some \<lparr>replies = Some rs\<rparr>\<rparr>"


section \<open>JavaScript values and the progress chunks of the agent\<close>

text \<open>
  A progress chunk has no fixed shape, so it is a JavaScript value built from the JSON
  constructors and \<^verbatim>\<open>undefined\<close>. Numbers are integers here. An object is the list of its
  own properties in enumeration order, with distinct keys.
\<close>

datatype jsv =
    JUndefined
  | JNull
  | JBool bool
  | JNum int
  | JStr string
  | JArr "jsv list"
  | JObj "(string \<times> jsv) list"

text \<open>The \<^verbatim>\<open>TypeError\<close> of the engine; the text of its message is the engine's.\<close>

definition TypeError :: js_error where
  "TypeError = \<lparr>err_name = ''TypeError'', err_message = ''TypeError''\<rparr>"

fun truthy :: "jsv \<Rightarrow> bool" where
  "truthy JUndefined = False"
| "truthy JNull = False"
| "truthy (JBool b) = b"
| "truthy (JNum n) = (n \<noteq> 0)"
| "truthy (JStr s) = (s \<noteq> [])"
| "truthy (JArr vs) = True"
| "truthy (JObj kvs) = True"

text \<open>\<^verbatim>\<open>v.k\<close> for a property name \<open>k\<close>: reading a property of \<^verbatim>\<open>undefined\<close> or \<^verbatim>\<open>null\<close> throws.\<close>

fun get_prop :: "jsv \<Rightarrow> string \<Rightarrow> js_error + jsv" where
  "get_prop JUndefined k = Inl TypeError"
| "get_prop JNull k = Inl TypeError"
| "get_prop (JObj kvs) k = Inr (case map_of kvs k of None \<Rightarrow> JUndefined | Some v \<Rightarrow> v)"
| "get_prop (JArr vs) k = Inr (if k = ''length'' then JNum (int (length vs)) else JUndefined)"
| "get_prop (JStr s) k = Inr (if k = ''length'' then JNum (int (length s)) else JUndefined)"
| "get_prop (JBool b) k = Inr JUndefined"
| "get_prop (JNum n) k = Inr JUndefined"

text \<open>\<^verbatim>\<open>v?.k\<close>: \<^verbatim>\<open>undefined\<close> when \<open>v\<close> is \<^verbatim>\<open>undefined\<close> or \<^verbatim>\<open>null\<close>.\<close>

definition opt_prop :: "jsv \<Rightarrow> string \<Rightarrow> jsv" where
  "opt_prop v k = (case get_prop v k of Inl e \<Rightarrow> JUndefined | Inr w \<Rightarrow> w)"

text \<open>
  The decimal text of an integer, as in the name of an index property, and the number a
  value is converted to when it is used as one (\<open>None\<close> for \<^verbatim>\<open>NaN\<close>): exact for
  \<^verbatim>\<open>undefined\<close>, \<^verbatim>\<open>null\<close>, booleans, numbers and strings of decimal digits; any other string,
  and an array or an object, is taken to give \<^verbatim>\<open>NaN\<close>.
\<close>

definition digit_char :: "nat \<Rightarrow> char" where
  "digit_char n = ''0123456789'' ! (n mod 10)"

function decimal :: "nat \<Rightarrow> string" where
  "decimal n = (if n < 10 then [digit_char n] else decimal (n div 10) @ [digit_char n])"
  by pat_completeness auto
termination
  by (relation "measure id") auto

declare decimal.simps [simp del]

definition number_text :: "int \<Rightarrow> string" where
  "number_text n = (if n < 0 then CHR ''-'' # decimal (nat (- n)) else decimal (nat n))"

definition is_digit :: "char \<Rightarrow> bool" where
  "is_digit c = (c \<in> set ''0123456789'')"

definition digits_value :: "string \<Rightarrow> nat" where
  "digits_value s = fold (\<lambda>c n. 10 * n + (of_char c - 48)) s 0"

fun to_number :: "jsv \<Rightarrow> int option" where
  "to_number JUndefined = None"
| "to_number JNull = Some 0"
| "to_number (JBool b) = Some (if b then 1 else 0)"
| "to_number (JNum n) = Some n"
| "to_number (JStr s) = (if list_all is_digit s then Some (int (digits_value s)) else None)"
| "to_number (JArr vs) = None"
| "to_number (JObj kvs) = None"

definition index_key :: "int option \<Rightarrow> string" where
  "index_key n = (case n of None \<Rightarrow> ''NaN'' | Some i \<Rightarrow> number_text i)"

text \<open>
  An own property of an object, and \<^verbatim>\<open>o[o.length - 1]\<close> for an object: the property named
  by the text of the length minus one, or by \<^verbatim>\<open>NaN\<close>.
\<close>

definition own :: "(string \<times> jsv) list \<Rightarrow> string \<Rightarrow> jsv" where
  "own kvs k = (case map_of kvs k of None \<Rightarrow> JUndefined | Some v \<Rightarrow> v)"

definition obj_last :: "(string \<times> jsv) list \<Rightarrow> jsv" where
  "obj_last kvs = own kvs (index_key (map_option (\<lambda>n. n - 1) (to_number (own kvs ''length''))))"


text \<open>\<^verbatim>\<open>xs[xs.length - 1]\<close>.\<close>

fun last_elem :: "jsv \<Rightarrow> js_error + jsv" where
  "last_elem JUndefined = Inl TypeError"
| "last_elem JNull = Inl TypeError"
| "last_elem (JArr vs) = Inr (if vs = [] then JUndefined else last vs)"
| "last_elem (JStr s) = Inr (if s = [] then JUndefined else JStr [last s])"
| "last_elem (JObj kvs) = Inr (obj_last kvs)"
| "last_elem (JBool b) = Inr JUndefined"
| "last_elem (JNum n) = Inr JUndefined"

text \<open>\<^verbatim>\<open>for (const x of v)\<close>: the values iterated, or the error when \<open>v\<close> is not iterable.\<close>

fun iterate :: "jsv \<Rightarrow> js_error + jsv list" where
  "iterate (JArr vs) = Inr vs"
| "iterate (JStr s) = Inr (map (\<lambda>c. JStr [c]) s)"
| "iterate v = Inl TypeError"

text \<open>The values of \<^verbatim>\<open>Object.entries(v)\<close> for a truthy \<open>v\<close>.\<close>

fun entry_values :: "jsv \<Rightarrow> jsv list" where
  "entry_values (JObj kvs) = map snd kvs"
| "entry_values (JArr vs) = vs"
| "entry_values (JStr s) = map (\<lambda>c. JStr [c]) s"
| "entry_values v = []"

text \<open>\<^verbatim>\<open>Array.isArray(v)\<close> and the elements of an array.\<close>

fun isArray :: "jsv \<Rightarrow> bool" where
  "isArray (JArr vs) = True"
| "isArray v = False"

fun elements :: "jsv \<Rightarrow> jsv list" where
  "elements (JArr vs) = vs"
| "elements v = []"

text \<open>\<^verbatim>\<open>id.split(':')[0]\<close> for a truthy \<open>id\<close>: only a string has \<^verbatim>\<open>split\<close>.\<close>

fun split_first :: "jsv \<Rightarrow> js_error + jsv" where
  "split_first (JStr s) = Inr (JStr (takeWhile (\<lambda>c. c \<noteq> CHR '':'') s))"
| "split_first v = Inl TypeError"

text \<open>\<^verbatim>\<open>a || b\<close>.\<close>

definition js_or :: "jsv \<Rightarrow> jsv \<Rightarrow> jsv" where
  "js_or a b = (if truthy a then a else b)"

subsection \<open>Blocks of statements that write events and may throw\<close>

text \<open>
  The outcome of a block: the events it has written, in order, and the error it has thrown,
  if any. What is written before a throw stays written.
\<close>

type_synonym 'ev run = "'ev list \<times> js_error option"

definition no_events :: "'ev run" where
  "no_events = ([], None)"

definition emit :: "'ev \<Rightarrow> 'ev run" where
  "emit ev = ([ev], None)"

definition andThen :: "'ev run \<Rightarrow> 'ev run \<Rightarrow> 'ev run" where
  "andThen a b = (case snd a of Some e \<Rightarrow> a | None \<Rightarrow> (fst a @ fst b, snd b))"

definition bindE :: "js_error + 'a \<Rightarrow> ('a \<Rightarrow> 'ev run) \<Rightarrow> 'ev run" where
  "bindE x f = (case x of Inl e \<Rightarrow> ([], Some e) | Inr v \<Rightarrow> f v)"

definition js_if :: "bool \<Rightarrow> 'ev run \<Rightarrow> 'ev run" where
  "js_if b r = (if b then r else no_events)"

fun for_each :: "('a \<Rightarrow> 'ev run) \<Rightarrow> 'a list \<Rightarrow> 'ev run" where
  "for_each body [] = no_events"
| "for_each body (x # xs) = andThen (body x) (for_each body xs)"

subsection \<open>The stream of the agent\<close>

text \<open>
  What \<^verbatim>\<open>reactAgent.stream(...)\<close> and the \<^verbatim>\<open>for await\<close> loop over it deliver: finitely many
  chunks, after which the iteration either ends or throws. A call of \<^verbatim>\<open>stream\<close> that is
  rejected is a stream without chunks that throws.
\<close>

datatype agent_stream = Stream "jsv list" "js_error option"

fun consume :: "(jsv \<Rightarrow> 'ev run) \<Rightarrow> jsv list \<Rightarrow> js_error option \<Rightarrow> 'ev run" where
  "consume body [] ending = ([], ending)"
| "consume body (chunk # rest) ending = andThen (body chunk) (consume body rest ending)"

subsection \<open>The handler of POST /api/agent/execute\<close>

datatype sse_event =
    EvAgent jsv
  | EvToolCall jsv jsv
  | EvToolResponse jsv bool
  | EvFinal jsv
  | EvError string

text \<open>
  The parameter \<open>JSON_parse\<close> stands for \<^verbatim>\<open>JSON.parse\<close> of the runtime: the parsed value, or
  the \<^verbatim>\<open>SyntaxError\<close> it throws.
\<close>

definition sse_tool_call :: "(jsv \<Rightarrow> js_error + jsv) \<Rightarrow> jsv \<Rightarrow> sse_event run" where
  "sse_tool_call JSON_parse toolCall =
     bindE (get_prop toolCall ''function'') (\<lambda>function.
     bindE (get_prop function ''name'') (\<lambda>name.
     bindE (get_prop function ''arguments'') (\<lambda>arguments.
     bindE (JSON_parse arguments) (\<lambda>args.
       emit (EvToolCall name args)))))"

definition sse_agent_part :: "(jsv \<Rightarrow> js_error + jsv) \<Rightarrow> jsv \<Rightarrow> sse_event run" where
  "sse_agent_part JSON_parse chunk =
     bindE (get_prop chunk ''agent'') (\<lambda>agent.
     js_if (truthy agent)
       (bindE (get_prop agent ''messages'') (\<lambda>messages.
        bindE (last_elem messages) (\<lambda>agentMessage.
        bindE (get_prop agentMessage ''content'') (\<lambda>content.
          andThen (js_if (truthy content) (emit (EvAgent content)))
            (bindE (get_prop agentMessage ''additional_kwargs'') (\<lambda>additional_kwargs.
               js_if (truthy (opt_prop additional_kwargs ''tool_calls''))
                 (bindE (iterate (opt_prop additional_kwargs ''tool_calls''))
                    (for_each (sse_tool_call JSON_parse))))))))))"

definition sse_tool_message :: "jsv \<Rightarrow> sse_event run" where
  "sse_tool_message message =
     bindE (get_prop message ''kwargs'') (\<lambda>kwargs.
     js_if (truthy (opt_prop kwargs ''tool_call_id''))
       (bindE (split_first (opt_prop kwargs ''tool_call_id'')) (\<lambda>toolName.
          emit (EvToolResponse toolName True))))"

definition sse_tools_part :: "jsv \<Rightarrow> sse_event run" where
  "sse_tools_part chunk =
     bindE (get_prop chunk ''tools'') (\<lambda>tools.
     js_if (truthy tools)
       (for_each
          (\<lambda>toolMessages.
             js_if (isArray toolMessages) (for_each sse_tool_message (elements toolMessages)))
          (entry_values tools)))"

definition sse_final_part :: "jsv \<Rightarrow> sse_event run" where
  "sse_final_part chunk =
     bindE (get_prop chunk ''__end__'') (\<lambda>ended.
     js_if (truthy ended)
       (bindE (get_prop chunk ''messages'') (\<lambda>messages.
        js_if (truthy messages)
          (bindE (last_elem messages) (\<lambda>lastMessage.
           bindE (get_prop lastMessage ''content'') (\<lambda>content.
             emit (EvFinal content)))))))"

definition sse_chunk :: "(jsv \<Rightarrow> js_error + jsv) \<Rightarrow> jsv \<Rightarrow> sse_event run" where
  "sse_chunk JSON_parse chunk =
     andThen (sse_agent_part JSON_parse chunk)
       (andThen (sse_tools_part chunk) (sse_final_part chunk))"

datatype frame = Data sse_event | Done

datatype http_effect = Respond nat | WriteHead nat | Write frame | End

text \<open>
  The handler from its first check on: what it does to the response, in order. The frame
  \<^verbatim>\<open>data: <json>\<close> is \<open>Data\<close> of the event whose JSON text it carries, and \<^verbatim>\<open>data: [DONE]\<close>
  is \<open>Done\<close>.
\<close>

definition agent_execute ::
  "(jsv \<Rightarrow> js_error + jsv) \<Rightarrow> bool \<Rightarrow> jsv \<Rightarrow> agent_stream \<Rightarrow> http_effect list" where
  "agent_execute JSON_parse reactAgent_set message stream =
     (if \<not> reactAgent_set then [Respond 503]
      else if \<not> truthy message then [Respond 400]
      else WriteHead 200 #
        (case stream of Stream chunks ending \<Rightarrow>
           (case consume (sse_chunk JSON_parse) chunks ending of
              (events, None) \<Rightarrow> map (\<lambda>ev. Write (Data ev)) events @ [Write Done, End]
            | (events, Some streamError) \<Rightarrow>
                map (\<lambda>ev. Write (Data ev)) events
                  @ [Write (Data (EvError (err_message streamError))), End])))"

subsection \<open>The console reporter: processNewCommentWithAgent\<close>

datatype console_event =
    SaySkipped
  | SayInstruction string docId
  | SayUsage jsv jsv jsv
  | SayAgent jsv
  | SayThinking jsv
  | SayCallingTools
  | SayTool jsv
  | SayToolCalled jsv jsv
  | SayToolSuccess jsv
  | SayToolError jsv
  | SayToolRaw jsv
  | SayDone jsv
  | SayFailed string

text \<open>
  After \<^verbatim>\<open>agentMessage.usage_metadata\<close> has been read without a throw, \<open>agentMessage\<close> is
  neither \<^verbatim>\<open>undefined\<close> nor \<^verbatim>\<open>null\<close>, and the later reads of its properties cannot throw:
  they are written with \<open>opt_prop\<close>, which gives the same value there.
\<close>

definition usage_report :: "jsv \<Rightarrow> console_event run" where
  "usage_report agentMessage =
     (if truthy (opt_prop agentMessage ''usage_metadata'')
      then emit (SayUsage (opt_prop (opt_prop agentMessage ''usage_metadata'') ''input_tokens'')
                          (opt_prop (opt_prop agentMessage ''usage_metadata'') ''output_tokens'')
                          (opt_prop (opt_prop agentMessage ''usage_metadata'') ''total_tokens''))
      else if truthy (opt_prop (opt_prop agentMessage ''response_metadata'') ''tokenUsage'')
      then emit (SayUsage
        (opt_prop (opt_prop (opt_prop agentMessage ''response_metadata'') ''tokenUsage'') ''promptTokens'')
        (opt_prop (opt_prop (opt_prop agentMessage ''response_metadata'') ''tokenUsage'') ''completionTokens'')
        (opt_prop (opt_prop (opt_prop agentMessage ''response_metadata'') ''tokenUsage'') ''totalTokens''))
      else no_events)"

definition console_tool_call :: "jsv \<Rightarrow> console_event run" where
  "console_tool_call toolCall =
     bindE (get_prop toolCall ''function'') (\<lambda>function.
     bindE (get_prop function ''name'') (\<lambda>name.
       emit (SayTool name)))"

definition console_agent_part :: "jsv \<Rightarrow> console_event run" where
  "console_agent_part chunk =
     bindE (get_prop chunk ''agent'') (\<lambda>agent.
     js_if (truthy agent)
       (bindE (get_prop agent ''messages'') (\<lambda>messages.
        bindE (last_elem messages) (\<lambda>agentMessage.
        bindE (get_prop agentMessage ''usage_metadata'') (\<lambda>usage_metadata.
          andThen (usage_report agentMessage)
          (andThen (js_if (truthy (opt_prop agentMessage ''content''))
                      (emit (SayAgent (opt_prop agentMessage ''content''))))
          (andThen (js_if (truthy (opt_prop agentMessage ''reasoning_content''))
                      (emit (SayThinking (opt_prop agentMessage ''reasoning_content''))))
             (js_if (truthy (opt_prop (opt_prop agentMessage ''additional_kwargs'') ''tool_calls''))
                (andThen (emit SayCallingTools)
                   (bindE (iterate (opt_prop (opt_prop agentMessage ''additional_kwargs'') ''tool_calls''))
                      (for_each console_tool_call)))))))))))"

text \<open>
  The \<^verbatim>\<open>try\<close> block around the parse of the payload of a tool result, with its \<^verbatim>\<open>catch\<close>:
  nothing is printed in the block before the last expression that can throw.
\<close>

definition tool_response :: "(jsv \<Rightarrow> js_error + jsv) \<Rightarrow> jsv \<Rightarrow> console_event run" where
  "tool_response JSON_parse raw =
     (case JSON_parse raw of
        Inl e \<Rightarrow> emit (SayToolRaw raw)
      | Inr content \<Rightarrow>
          (case get_prop content ''code'' of
             Inl e \<Rightarrow> emit (SayToolRaw raw)
           | Inr code \<Rightarrow>
               if code = JNum 0 \<and> truthy (opt_prop content ''data'')
               then emit (SayToolSuccess (opt_prop content ''data''))
               else emit (SayToolError (js_or (opt_prop content ''msg'') (JStr ''Unknown error'')))))"

definition console_tool_message :: "(jsv \<Rightarrow> js_error + jsv) \<Rightarrow> jsv \<Rightarrow> console_event run" where
  "console_tool_message JSON_parse message =
     bindE (get_prop message ''kwargs'') (\<lambda>kwargs.
     js_if (truthy (opt_prop kwargs ''tool_call_id''))
       (bindE (split_first (opt_prop kwargs ''tool_call_id'')) (\<lambda>toolName.
          andThen (emit (SayToolCalled toolName (opt_prop kwargs ''tool_call_id'')))
            (tool_response JSON_parse (opt_prop kwargs ''content'')))))"

definition console_tools_part :: "(jsv \<Rightarrow> js_error + jsv) \<Rightarrow> jsv \<Rightarrow> console_event run" where
  "console_tools_part JSON_parse chunk =
     bindE (get_prop chunk ''tools'') (\<lambda>tools.
     js_if (truthy tools)
       (for_each
          (\<lambda>toolMessages.
             js_if (isArray toolMessages)
               (for_each (console_tool_message JSON_parse) (elements toolMessages)))
          (entry_values tools)))"

definition console_chunk :: "(jsv \<Rightarrow> js_error + jsv) \<Rightarrow> jsv \<Rightarrow> console_event run" where
  "console_chunk JSON_parse chunk =
     andThen (console_agent_part chunk) (console_tools_part JSON_parse chunk)"

text \<open>
  \<^verbatim>\<open>if (chunk.__end__) finalResponse = chunk\<close> over the chunks of a stream that was read to
  its end: the last chunk whose \<^verbatim>\<open>__end__\<close> is truthy.
\<close>

fun finalResponse :: "jsv list \<Rightarrow> jsv option \<Rightarrow> jsv option" where
  "finalResponse [] final = final"
| "finalResponse (chunk # rest) final =
     finalResponse rest (if truthy (opt_prop chunk ''__end__'') then Some chunk else final)"

text \<open>
  The text of the first reply of the comment, or a fixed text when there is none (the
  source has a Chinese sentence there).
\<close>

definition commentText :: "comment \<Rightarrow> string" where
  "commentText c =
     (case replies_of c of
        [] \<Rightarrow> ''(no comment text)''
      | r # rs \<Rightarrow>
          (case reply_text r of
             None \<Rightarrow> ''(no comment text)''
           | Some t \<Rightarrow> if t = [] then ''(no comment text)'' else t))"

text \<open>
  \<^verbatim>\<open>processNewCommentWithAgent(comment, docId)\<close> with the stream the agent answers with: what
  is printed and the value returned (\<open>None\<close> for \<^verbatim>\<open>null\<close>). The whole body is in a
  \<^verbatim>\<open>try\<close> whose \<^verbatim>\<open>catch\<close> prints the message and returns \<^verbatim>\<open>null\<close>.
\<close>

definition processNewCommentWithAgent ::
  "(jsv \<Rightarrow> js_error + jsv) \<Rightarrow> bool \<Rightarrow> comment \<Rightarrow> docId \<Rightarrow> agent_stream
     \<Rightarrow> console_event list \<times> jsv option" where
  "processNewCommentWithAgent JSON_parse reactAgent_set c docId stream =
     (if \<not> reactAgent_set then ([SaySkipped], None)
      else case stream of Stream chunks ending \<Rightarrow>
        (case consume (console_chunk JSON_parse) chunks ending of
           (events, Some error) \<Rightarrow>
             (SayInstruction (commentText c) docId # events @ [SayFailed (err_message error)], None)
         | (events, None) \<Rightarrow>
             (case finalResponse chunks None of
                None \<Rightarrow> (SayInstruction (commentText c) docId # events, None)
              | Some final \<Rightarrow>
                  if truthy (opt_prop final ''messages'')
                  then (case last_elem (opt_prop final ''messages'') of
                          Inl error \<Rightarrow>
                            (SayInstruction (commentText c) docId # events
                               @ [SayFailed (err_message error)], None)
                        | Inr lastMessage \<Rightarrow>
                            (case get_prop lastMessage ''content'' of
                               Inl error \<Rightarrow>
                                 (SayInstruction (commentText c) docId # events
                                    @ [SayFailed (err_message error)], None)
                             | Inr content \<Rightarrow>
                                 (SayInstruction (commentText c) docId # events @ [SayDone content],
                                  Some final)))
                  else (SayInstruction (commentText c) docId # events, Some final))))"

subsection \<open>The example agent: runAgent\<close>

text \<open>
  The loop of \<^verbatim>\<open>runAgent\<close> in \<^verbatim>\<open>mcp-agent-example.js\<close> over the chunks of the stream. It
  prints what the console reporter prints, and also the parsed arguments of each tool call.
\<close>

datatype example_event =
    ShowUsage jsv jsv jsv
  | ShowAgent jsv
  | ShowReasoning jsv
  | ShowCallingTools
  | ShowTool jsv
  | ShowArgs jsv
  | ShowResponseFrom jsv
  | ShowSuccess
  | ShowData jsv
  | ShowError jsv
  | ShowRaw jsv
  | ShowCompleted
  | ShowFinal jsv
  | ShowFailed string
  | ShowCleanup

definition example_tool_call :: "(jsv \<Rightarrow> js_error + jsv) \<Rightarrow> jsv \<Rightarrow> example_event run" where
  "example_tool_call JSON_parse toolCall =
     bindE (get_prop toolCall ''function'') (\<lambda>function.
     bindE (get_prop function ''name'') (\<lambda>name.
       andThen (emit (ShowTool name))
         (bindE (get_prop function ''arguments'') (\<lambda>arguments.
          bindE (JSON_parse arguments) (\<lambda>args.
            emit (ShowArgs args))))))"

definition example_agent_part :: "(jsv \<Rightarrow> js_error + jsv) \<Rightarrow> jsv \<Rightarrow> example_event run" where
  "example_agent_part JSON_parse chunk =
     bindE (get_prop chunk ''agent'') (\<lambda>agent.
     js_if (truthy agent)
       (bindE (get_prop agent ''messages'') (\<lambda>messages.
        bindE (last_elem messages) (\<lambda>agentMessage.
        bindE (get_prop agentMessage ''usage_metadata'') (\<lambda>usage_metadata.
          andThen (js_if (truthy usage_metadata)
                     (emit (ShowUsage (opt_prop usage_metadata ''input_tokens'')
                                      (opt_prop usage_metadata ''output_tokens'')
                                      (opt_prop usage_metadata ''total_tokens''))))
          (andThen (js_if (truthy (opt_prop agentMessage ''content''))
                      (emit (ShowAgent (opt_prop agentMessage ''content''))))
          (andThen (js_if (truthy (opt_prop agentMessage ''reasoning_content''))
                      (emit (ShowReasoning (opt_prop agentMessage ''reasoning_content''))))
             (js_if (truthy (opt_prop (opt_prop agentMessage ''additional_kwargs'') ''tool_calls''))
                (andThen (emit ShowCallingTools)
                   (bindE (iterate (opt_prop (opt_prop agentMessage ''additional_kwargs'') ''tool_calls''))
                      (for_each (example_tool_call JSON_parse))))))))))))"

definition example_tool_response :: "(jsv \<Rightarrow> js_error + jsv) \<Rightarrow> jsv \<Rightarrow> example_event run" where
  "example_tool_response JSON_parse raw =
     (case JSON_parse raw of
        Inl e \<Rightarrow> emit (ShowRaw raw)
      | Inr content \<Rightarrow>
          (case get_prop content ''code'' of
             Inl e \<Rightarrow> emit (ShowRaw raw)
           | Inr code \<Rightarrow>
               if code = JNum 0
               then andThen (emit ShowSuccess)
                      (js_if (truthy (opt_prop content ''data''))
                         (emit (ShowData (opt_prop content ''data''))))
               else emit (ShowError (js_or (opt_prop content ''msg'') (JStr ''Unknown error'')))))"

definition example_tool_message :: "(jsv \<Rightarrow> js_error + jsv) \<Rightarrow> jsv \<Rightarrow> example_event run" where
  "example_tool_message JSON_parse message =
     bindE (get_prop message ''kwargs'') (\<lambda>kwargs.
     js_if (truthy (opt_prop kwargs ''tool_call_id''))
       (bindE (split_first (opt_prop kwargs ''tool_call_id'')) (\<lambda>toolName.
          andThen (emit (ShowResponseFrom toolName))
            (example_tool_response JSON_parse (opt_prop kwargs ''content'')))))"

definition example_tools_part :: "(jsv \<Rightarrow> js_error + jsv) \<Rightarrow> jsv \<Rightarrow> example_event run" where
  "example_tools_part JSON_parse chunk =
     bindE (get_prop chunk ''tools'') (\<lambda>tools.
     js_if (truthy tools)
       (for_each
          (\<lambda>toolMessages.
             js_if (isArray toolMessages)
               (for_each (example_tool_message JSON_parse) (elements toolMessages)))
          (entry_values tools)))"

definition example_end_part :: "jsv \<Rightarrow> example_event run" where
  "example_end_part chunk =
     bindE (get_prop chunk ''__end__'') (\<lambda>ended.
     js_if (truthy ended)
       (andThen (emit ShowCompleted)
          (bindE (get_prop chunk ''messages'') (\<lambda>messages.
           js_if (truthy messages)
             (bindE (last_elem messages) (\<lambda>lastMessage.
              bindE (get_prop lastMessage ''content'') (\<lambda>content.
                emit (ShowFinal content))))))))"

definition example_chunk :: "(jsv \<Rightarrow> js_error + jsv) \<Rightarrow> jsv \<Rightarrow> example_event run" where
  "example_chunk JSON_parse chunk =
     andThen (example_agent_part JSON_parse chunk)
       (andThen (example_tools_part JSON_parse chunk) (example_end_part chunk))"

text \<open>
  \<^verbatim>\<open>runAgent\<close> from the call of \<^verbatim>\<open>agent.stream\<close> on: the \<^verbatim>\<open>catch\<close> prints the error and the
  \<^verbatim>\<open>finally\<close> block cleans up.
\<close>

definition runAgent :: "(jsv \<Rightarrow> js_error + jsv) \<Rightarrow> agent_stream \<Rightarrow> example_event list" where
  "runAgent JSON_parse stream =
     (case stream of Stream chunks ending \<Rightarrow>
        (case consume (example_chunk JSON_parse) chunks ending of
           (events, None) \<Rightarrow> events @ [ShowCleanup]
         | (events, Some error) \<Rightarrow> events @ [ShowFailed (err_message error), ShowCleanup]))"


text \<open>
  The error frame is the only event with the type \<^verbatim>\<open>error\<close>.
\<close>

definition is_EvError :: "sse_event \<Rightarrow> bool" where
  "is_EvError ev = (case ev of EvError m \<Rightarrow> True | _ \<Rightarrow> False)"

text \<open>
  Sample chunks: an agent chunk without messages, a final chunk, and a tool result with a
  given payload.
\<close>

definition ex_bad_chunk :: jsv where
  "ex_bad_chunk = JObj [(''agent'', JObj [])]"

definition ex_final_chunk :: jsv where
  "ex_final_chunk =
     JObj [(''__end__'', JBool True), (''messages'', JArr [JObj [(''content'', JStr ''done'')]])]"

definition ex_result_message :: "jsv \<Rightarrow> jsv" where
  "ex_result_message payload =
     JObj [(''kwargs'', JObj [(''tool_call_id'', JStr ''docx_create:call_1''),
                              (''content'', payload)])]"


text \<open>
  A block that writes no error frame.
\<close>

definition clean :: "sse_event run \<Rightarrow> bool" where
  "clean r = (\<not> list_ex is_EvError (fst r))"

text \<open>
  The writes of the data frames of a list of events.
\<close>

definition frames :: "sse_event list \<Rightarrow> http_effect list" where
  "frames events = map (\<lambda>ev. Write (Data ev)) events"


text \<open>
  The \<^verbatim>\<open>SyntaxError\<close> of \<^verbatim>\<open>JSON.parse\<close>, and a \<^verbatim>\<open>JSON.parse\<close> for the sample data: it parses the text
  of the empty object and rejects every other text.
\<close>

definition SyntaxError :: js_error where
  "SyntaxError = \<lparr>err_name = ''SyntaxError'', err_message = ''SyntaxError''\<rparr>"

definition ex_JSON_parse :: "jsv \<Rightarrow> js_error + jsv" where
  "ex_JSON_parse v = (if v = JStr ''{}'' then Inr (JObj []) else Inl SyntaxError)"

text \<open>
  An agent chunk whose last message has the given content and asks for the given tool
  calls, each a name and the serialized arguments; the array of the tool calls; and the
  events of the tool calls when \<open>decoded\<close> gives the parsed arguments.
\<close>

definition tool_calls_chunk :: "jsv \<Rightarrow> (string \<times> string) list \<Rightarrow> jsv" where
  "tool_calls_chunk content calls =
     JObj [(''agent'', JObj [(''messages'', JArr [JObj [
       (''content'', content),
       (''additional_kwargs'', JObj [(''tool_calls'', JArr (map
          (\<lambda>(name, arguments).
             JObj [(''function'', JObj [(''name'', JStr name), (''arguments'', JStr arguments)])])
          calls))])]])])]"

definition tool_call_objects :: "(string \<times> string) list \<Rightarrow> jsv list" where
  "tool_call_objects calls = map
          (\<lambda>(name, arguments).
             JObj [(''function'', JObj [(''name'', JStr name), (''arguments'', JStr arguments)])])
          calls"

definition tool_call_events :: "(string \<Rightarrow> jsv) \<Rightarrow> (string \<times> string) list \<Rightarrow> sse_event list" where
  "tool_call_events decoded calls =
     map (\<lambda>(name, arguments). EvToolCall (JStr name) (decoded arguments)) calls"

text \<open>
  An agent chunk with one message that has a content.
\<close>

definition ex_message_chunk :: jsv where
  "ex_message_chunk =
     JObj [(''agent'', JObj [(''messages'', JArr [JObj [(''content'', JStr ''on it'')]])])]"


section \<open>Ticks in flight: the timers and the event loop\<close>

text \<open>
  \<^verbatim>\<open>setInterval(async () => { await invokeGetCommentsTools(docInfo.fullId) }, 1000)\<close> calls
  the tick at every firing of the timer and does nothing with the promise it returns. A
  tick is suspended at its \<^verbatim>\<open>await\<close>s: while it waits for the fetch (\<^verbatim>\<open>getTools\<close> and
  \<^verbatim>\<open>invoke\<close>, taken together), and while it waits for the agent on each new reply. Between
  two suspensions it runs without interruption. A tick in flight is in one of these phases.
\<close>

datatype phase = Fetching | Dispatching "comment list" | Finished

record tick =
  tick_doc :: docId
  tick_phase :: phase

text \<open>
  The state of the server: \<^verbatim>\<open>commentsCache\<close>, the keys of \<^verbatim>\<open>activeTimers\<close>, and the ticks
  started so far, in the order in which they started.
\<close>

record server =
  comments :: cache
  timers :: "docId set"
  ticks :: "tick list"

text \<open>
  What can happen next: a request that starts or stops the monitor of a document, the
  timer of a document firing, the fetch of a tick settling, the agent call of a tick
  settling (by returning or by throwing: the loop goes on in both cases).
\<close>

datatype event =
    StartMonitor docId
  | StopMonitor docId
  | TimerFires docId
  | FetchSettles nat "string settled"
  | AgentSettles nat

definition set_phase :: "nat \<Rightarrow> phase \<Rightarrow> server \<Rightarrow> server" where
  "set_phase n ph s = s\<lparr>ticks := (ticks s)[n := (ticks s ! n)\<lparr>tick_phase := ph\<rparr>]\<rparr>"

definition dispatching :: "comment list \<Rightarrow> phase" where
  "dispatching newComments = (if newComments = [] then Finished else Dispatching newComments)"

text \<open>
  One step of the server. \<open>None\<close> means that the event cannot happen in the state. The
  start of a monitor clears the old timer and the cache entry when the document is already
  monitored, and sets a timer; the stop clears both when the document is monitored. The
  fetch is taken to reach \<^verbatim>\<open>invoke\<close> (\<^verbatim>\<open>mcpClient\<close> set, the tool found); when it resolves the
  tick runs \<open>after_fetch\<close> at once.
\<close>

fun step :: "(string \<Rightarrow> js_error + snapshot) \<Rightarrow> event \<Rightarrow> server \<Rightarrow> server option" where
  "step parseItems (StartMonitor d) s =
     Some (if d \<in> timers s then s\<lparr>comments := (comments s)(d := None)\<rparr>
           else s\<lparr>timers := insert d (timers s)\<rparr>)"
| "step parseItems (StopMonitor d) s =
     Some (if d \<in> timers s
           then s\<lparr>comments := (comments s)(d := None), timers := timers s - {d}\<rparr>
           else s)"
| "step parseItems (TimerFires d) s =
     (if d \<in> timers s
      then Some (s\<lparr>ticks := ticks s @ [\<lparr>tick_doc = d, tick_phase = Fetching\<rparr>]\<rparr>)
      else None)"
| "step parseItems (FetchSettles n outcome) s =
     (if n < length (ticks s) \<and> tick_phase (ticks s ! n) = Fetching
      then (case outcome of
              Rejected e \<Rightarrow> Some (set_phase n Finished s)
            | Resolved result \<Rightarrow>
                (case after_fetch parseItems (tick_doc (ticks s ! n)) result (comments s) of
                   Inl e \<Rightarrow> Some (set_phase n Finished s)
                 | Inr (newComments, effs, commentsCache') \<Rightarrow>
                     Some (set_phase n (dispatching newComments) (s\<lparr>comments := commentsCache'\<rparr>))))
      else None)"
| "step parseItems (AgentSettles n) s =
     (if n < length (ticks s)
      then (case tick_phase (ticks s ! n) of
              Dispatching (c # rest) \<Rightarrow> Some (set_phase n (dispatching rest) s)
            | _ \<Rightarrow> None)
      else None)"

fun run_events :: "(string \<Rightarrow> js_error + snapshot) \<Rightarrow> event list \<Rightarrow> server \<Rightarrow> server option" where
  "run_events parseItems [] s = Some s"
| "run_events parseItems (ev # evs) s =
     (case step parseItems ev s of None \<Rightarrow> None | Some s' \<Rightarrow> run_events parseItems evs s')"

definition server_start :: server where
  "server_start = \<lparr>comments = Map.empty, timers = {}, ticks = []\<rparr>"

text \<open>The documents of the ticks that are between the start of their fetch and their write.\<close>

definition fetching_docs :: "server \<Rightarrow> docId list" where
  "fetching_docs s = map tick_doc (filter (\<lambda>t. tick_phase t = Fetching) (ticks s))"

text \<open>A response text for each of two snapshots.\<close>

definition ex_parse :: "string \<Rightarrow> js_error + snapshot" where
  "ex_parse result =
     (if result = ''one'' then Inr [ex_comment [ex_r1]] else Inr [ex_comment [ex_r1, ex_r2]])"









section \<open>Properties of the diff\<close>

lemmas ex_defs = ex_r1_def ex_r2_def ex_comment_def
lemmas spec_defs = new_replies_def replies_of_def reply_ids_def with_parent_def is_new_def

lemma fold_add_reply_id:
  "fold add_reply_id rs ids =
     ids \<union> (\<Union>r \<in> set rs. (case reply_id r of None \<Rightarrow> {} | Some i \<Rightarrow> if i = [] then {} else {i}))"
  by (induction rs arbitrary: ids) (auto simp: add_reply_id_def split: option.splits if_splits)

lemma add_comment_ids_eq:
  "add_comment_ids c ids =
     ids \<union> (\<Union>r \<in> set (replies_of c). (case reply_id r of None \<Rightarrow> {} | Some i \<Rightarrow> if i = [] then {} else {i}))"
  by (simp add: add_comment_ids_def replies_of_def fold_add_reply_id split: option.splits)

lemma fold_add_comment_ids:
  "fold add_comment_ids cs ids = ids \<union> reply_ids cs"
proof (induction cs arbitrary: ids)
  case Nil
  show ?case by (simp add: reply_ids_def)
next
  case (Cons c cs)
  have "fold add_comment_ids (c # cs) ids = add_comment_ids c ids \<union> reply_ids cs"
    by (simp only: fold_simps Cons.IH)
  also have "\<dots> = ids \<union> reply_ids [c] \<union> reply_ids cs"
    by (simp add: add_comment_ids_eq reply_ids_def)
  also have "\<dots> = ids \<union> reply_ids (c # cs)"
    by (auto simp: reply_ids_def)
  finally show ?case .
qed

lemma cachedCommentIds_eq: "cachedCommentIds old = reply_ids old"
  by (simp add: cachedCommentIds_def fold_add_comment_ids)

lemma fold_push_new_reply:
  "fold (push_new_reply ids c rl) rs acc =
     acc @ map (single_reply c rl)
             (filter (\<lambda>r. case reply_id r of None \<Rightarrow> False | Some i \<Rightarrow> i \<noteq> [] \<and> i \<notin> ids) rs)"
  by (induction rs arbitrary: acc) (auto simp: push_new_reply_def split: option.splits)

lemma scan_comment_eq:
  "scan_comment (reply_ids old) c acc =
     acc @ map (with_parent c) (filter (is_new old) (replies_of c))"
proof (cases "reply_list c")
  case None
  then show ?thesis by (simp add: scan_comment_def replies_of_def)
next
  case (Some rl)
  have tag: "single_reply c rl = with_parent c"
    by (rule ext) (simp add: single_reply_def with_parent_def Some)
  have new: "(\<lambda>r. case reply_id r of None \<Rightarrow> False | Some i \<Rightarrow> i \<noteq> [] \<and> i \<notin> reply_ids old) = is_new old"
    by (rule ext) (simp add: is_new_def)
  show ?thesis
    by (cases "replies rl")
       (simp_all add: scan_comment_def replies_of_def Some fold_push_new_reply tag new)
qed

lemma fold_scan_comment:
  "fold (scan_comment (reply_ids old)) cs acc = acc @ new_replies old cs"
  by (induction cs arbitrary: acc) (simp_all add: new_replies_def scan_comment_eq)

lemma detectNewComments_eq:
  "detectNewComments old new = (if old = [] then [] else new_replies old new)"
  by (simp add: detectNewComments_def cachedCommentIds_eq fold_scan_comment)



section \<open>Properties of a tick\<close>

lemma dispatched_append: "dispatched (xs @ ys) = dispatched xs @ dispatched ys"
  by (simp add: dispatched_def)

lemma dispatched_Nil: "dispatched [] = []"
  by (simp add: dispatched_def)

lemma dispatched_Cons:
  "dispatched (e # es) = (case e of CallAgent c d \<Rightarrow> [c] | _ \<Rightarrow> []) @ dispatched es"
  by (simp add: dispatched_def)

lemma dispatched_dispatch_from: "dispatched (dispatch_from agent docId index cs) = cs"
proof (induction cs arbitrary: index)
  case Nil
  show ?case by (simp add: dispatched_Nil)
next
  case (Cons c cs)
  then show ?case
    by (cases "agent index c docId") (simp_all add: dispatched_Cons)
qed

lemma dispatched_dispatch_all: "dispatched (dispatch_all agent docId cs) = cs"
  by (simp add: dispatch_all_def dispatched_Cons dispatched_append dispatched_dispatch_from
        dispatched_Nil)



lemma dispatched_tick_failed: "dispatched (tick_failed e) = []"
  by (simp add: tick_failed_def dispatched_def)

lemma tick_success:
  assumes "mcpClient_set env" "getTools_settles env = Resolved tools"
    "''drive_comment_list'' \<in> set tools" "invoke_settles env = Resolved result"
    "parseItems result = Inr currentComments"
  shows "invokeGetCommentsTools parseItems agent env docId commentsCache =
     (Some result,
      CacheSet docId currentComments #
        dispatch_all agent docId
          (detectNewComments (cached_or_empty commentsCache docId) currentComments),
      commentsCache(docId \<mapsto> currentComments))"
  using assms by (simp add: invokeGetCommentsTools_def after_fetch_def)

lemma tick_failed_no_CacheSet: "\<not> list_ex is_CacheSet (tick_failed e)"
  by (simp add: tick_failed_def is_CacheSet_def)

lemma tick_shape:
  "(\<exists>effs. invokeGetCommentsTools parseItems agent env docId commentsCache
        = (None, effs, commentsCache)
      \<and> dispatched effs = [] \<and> \<not> list_ex is_CacheSet effs)
   \<or> (\<exists>result cur. invokeGetCommentsTools parseItems agent env docId commentsCache
        = (Some result,
           CacheSet docId cur #
             dispatch_all agent docId (detectNewComments (cached_or_empty commentsCache docId) cur),
           commentsCache(docId \<mapsto> cur)))"
  by (simp add: invokeGetCommentsTools_def after_fetch_def dispatched_tick_failed
        tick_failed_no_CacheSet dispatched_Nil dispatched_Cons is_CacheSet_def
      split: settled.splits sum.splits)

lemma tick_dispatched_cases:
  "dispatched (fst (snd (invokeGetCommentsTools parseItems agent env docId commentsCache))) = []
   \<or> (\<exists>cur. snd (snd (invokeGetCommentsTools parseItems agent env docId commentsCache))
            = commentsCache(docId \<mapsto> cur)
         \<and> dispatched (fst (snd (invokeGetCommentsTools parseItems agent env docId commentsCache)))
            = detectNewComments (cached_or_empty commentsCache docId) cur)"
  using tick_shape [of parseItems agent env docId commentsCache]
  by (auto simp: dispatched_Cons dispatched_dispatch_all)




lemma poll_run_Cons:
  "poll_run agent docId (fetched # rest) commentsCache
     = (detectNewComments (cached_or_empty commentsCache docId) fetched
          # fst (poll_run agent docId rest (commentsCache(docId \<mapsto> fetched))),
        snd (poll_run agent docId rest (commentsCache(docId \<mapsto> fetched))))"
proof -
  have "invokeGetCommentsTools (\<lambda>result. Inr fetched) agent (ex_env '''') docId commentsCache
      = (Some '''',
         CacheSet docId fetched #
           dispatch_all agent docId
             (detectNewComments (cached_or_empty commentsCache docId) fetched),
         commentsCache(docId \<mapsto> fetched))"
    using tick_success [of "ex_env ''''" "[''drive_comment_list'']" "''''" "\<lambda>result. Inr fetched"
        fetched agent docId commentsCache]
    by (simp add: ex_env_def)
  then show ?thesis
    by (simp only: poll_run.simps prod.case dispatched_Cons dispatched_dispatch_all effect.case
          append_Nil split_beta fst_conv snd_conv)
qed

lemma poll_run_reports:
  "fst (poll_run agent docId fetches commentsCache)
     = map (\<lambda>(stored, fetched). detectNewComments stored fetched)
         (zip (cached_or_empty commentsCache docId # fetches) fetches)"
proof (induction fetches arbitrary: commentsCache)
  case Nil
  show ?case by simp
next
  case (Cons fetched rest)
  have "cached_or_empty (commentsCache(docId \<mapsto> fetched)) docId = fetched"
    by (simp add: cached_or_empty_def)
  with Cons.IH [of "commentsCache(docId \<mapsto> fetched)"] show ?case
    by (simp only: poll_run_Cons fst_conv list.map zip_Cons_Cons prod.case)
qed


section \<open>The claims about the diff and the tick\<close>

text \<open>
  For every previous snapshot that is not empty, \<^verbatim>\<open>detectNewComments\<close> returns exactly the
  replies of the fresh snapshot whose \<^verbatim>\<open>reply_id\<close> is a non-empty string that is not among
  the \<^verbatim>\<open>reply_id\<close> values collected from all reply lists of the previous one, in the order
  in which they appear in the fresh snapshot, each inside a copy of its parent comment
  whose reply list holds that reply alone.
\<close>

lemma detectNewComments_reports_unseen_ids:
  "old \<noteq> [] \<Longrightarrow> detectNewComments old new = new_replies old new"
  by (simp add: detectNewComments_eq)

text \<open>
  Claim C1 covers every previous snapshot that is present. A snapshot that is stored and
  empty (the document had no comments at the poll before) makes the guard
  \<^verbatim>\<open>cachedComments.length === 0\<close> fire on a poll that is not the first: the code returns
  nothing where the claim, and the comment above the guard, which exempts the first fetch
  only, ask for the new reply. The reply is then part of the stored snapshot, so the first
  reply ever added to a document without comments is handed to the agent at no tick.
\<close>

theorem empty_stored_snapshot_hides_first_reply:
  "[''doc'' \<mapsto> []] ''doc'' = Some ([] :: snapshot)
   \<and> detectNewComments (cached_or_empty [''doc'' \<mapsto> []] ''doc'') [ex_comment [ex_r1]] = []
   \<and> new_replies (cached_or_empty [''doc'' \<mapsto> []] ''doc'') [ex_comment [ex_r1]]
       = [ex_comment [ex_r1]]
   \<and> fst (poll_run (\<lambda>i c d. None) ''doc'' [[], [ex_comment [ex_r1]], [ex_comment [ex_r1]]]
            Map.empty)
       = [[], [], []]"
  by (simp add: cached_or_empty_def ex_defs detectNewComments_eq spec_defs poll_run_reports
        del: poll_run.simps)

text \<open>
  Claim C5. When no previous snapshot is stored for the document, the diff of the first
  poll is empty for every fetched snapshot, and the tick hands no reply to the agent.
\<close>

theorem first_poll_baseline:
  "commentsCache docId = None \<Longrightarrow>
     detectNewComments (cached_or_empty commentsCache docId) currentComments = []
     \<and> dispatched (fst (snd (invokeGetCommentsTools parseItems agent env docId commentsCache))) = []"
  using tick_dispatched_cases [of parseItems agent env docId commentsCache]
  by (auto simp: cached_or_empty_def detectNewComments_def)

text \<open>
  The first poll of a document whose fetched snapshot holds one reply.
\<close>

theorem first_poll_baseline_witness:
  "(Map.empty :: cache) ''doc'' = None
   \<and> detectNewComments (cached_or_empty Map.empty ''doc'') [ex_comment [ex_r1]] = []
   \<and> dispatched (fst (snd (invokeGetCommentsTools (\<lambda>result. Inr [ex_comment [ex_r1]])
         (\<lambda>i c d. None) (ex_env ''{}'') ''doc'' Map.empty))) = []"
  using first_poll_baseline [of Map.empty "''doc''" "[ex_comment [ex_r1]]"
      "\<lambda>result. Inr [ex_comment [ex_r1]]" "\<lambda>i c d. None" "ex_env ''{}''"]
  by simp

text \<open>
  Claim C6. When \<^verbatim>\<open>getTools\<close> or the fetch is rejected, or the response does not parse, the
  tick returns \<^verbatim>\<open>null\<close>, logs the message of the error, hands nothing to the agent and
  leaves the cache as it was. The tick returns in every case (the function has a value for
  every environment), so the timer that started it stays and the next tick runs.
\<close>

theorem fetch_failure_skips_tick:
  assumes "mcpClient_set env"
    and "getTools_settles env = Rejected e
         \<or> (\<exists>tools. getTools_settles env = Resolved tools \<and> ''drive_comment_list'' \<in> set tools
              \<and> (invoke_settles env = Rejected e
                  \<or> (\<exists>result. invoke_settles env = Resolved result \<and> parseItems result = Inl e)))"
  shows "invokeGetCommentsTools parseItems agent env docId commentsCache
           = (None, tick_failed e, commentsCache)
         \<and> dispatched (tick_failed e) = []
         \<and> \<not> list_ex is_CacheSet (tick_failed e)
         \<and> LogError (err_message e) \<in> set (tick_failed e)"
proof -
  have "invokeGetCommentsTools parseItems agent env docId commentsCache
           = (None, tick_failed e, commentsCache)"
    using assms by (auto simp: invokeGetCommentsTools_def after_fetch_def)
  moreover have "LogError (err_message e) \<in> set (tick_failed e)"
    by (simp add: tick_failed_def)
  ultimately show ?thesis
    by (simp add: dispatched_tick_failed tick_failed_no_CacheSet)
qed

text \<open>
  A response that is not JSON, with a snapshot already stored.
\<close>

theorem fetch_failure_skips_tick_witness:
  "mcpClient_set (ex_env ''<html>'')
   \<and> getTools_settles (ex_env ''<html>'') = Resolved [''drive_comment_list'']
   \<and> ''drive_comment_list'' \<in> set [''drive_comment_list'']
   \<and> invoke_settles (ex_env ''<html>'') = Resolved ''<html>''
   \<and> (\<lambda>result. Inl \<lparr>err_name = ''SyntaxError'', err_message = ''Unexpected token''\<rparr>
          :: js_error + snapshot) ''<html>''
        = Inl \<lparr>err_name = ''SyntaxError'', err_message = ''Unexpected token''\<rparr>
   \<and> invokeGetCommentsTools
        (\<lambda>result. Inl \<lparr>err_name = ''SyntaxError'', err_message = ''Unexpected token''\<rparr>)
        (\<lambda>i c d. None) (ex_env ''<html>'') ''doc'' [''doc'' \<mapsto> [ex_comment [ex_r1]]]
      = (None, [LogError ''Unexpected token''], [''doc'' \<mapsto> [ex_comment [ex_r1]]])"
proof -
  have env: "mcpClient_set (ex_env ''<html>'')"
    "getTools_settles (ex_env ''<html>'') = Resolved [''drive_comment_list'']"
    "invoke_settles (ex_env ''<html>'') = Resolved ''<html>''"
    by (simp_all add: ex_env_def)
  from env fetch_failure_skips_tick [of "ex_env ''<html>''"
      "\<lparr>err_name = ''SyntaxError'', err_message = ''Unexpected token''\<rparr>"
      "\<lambda>result. Inl \<lparr>err_name = ''SyntaxError'', err_message = ''Unexpected token''\<rparr>"
      "\<lambda>i c d. None" "''doc''" "[''doc'' \<mapsto> [ex_comment [ex_r1]]]"]
  show ?thesis
    by (simp add: tick_failed_def)
qed

lemma tick_from_empty:
  assumes "cached_or_empty commentsCache docId = []"
  shows "invokeGetCommentsTools (\<lambda>result. Inr fetched) agent (ex_env r) docId commentsCache
      = (Some r, [CacheSet docId fetched], commentsCache(docId \<mapsto> fetched))"
  using tick_success [of "ex_env r" "[''drive_comment_list'']" r "\<lambda>result. Inr fetched" fetched
      agent docId commentsCache] assms
  by (simp add: ex_env_def detectNewComments_def dispatch_all_def)

lemma poll_run_step_from_empty:
  assumes "cached_or_empty commentsCache docId = []"
  shows "poll_run agent docId (fetched # rest) commentsCache
     = ([] # fst (poll_run agent docId rest (commentsCache(docId \<mapsto> fetched))),
        snd (poll_run agent docId rest (commentsCache(docId \<mapsto> fetched))))"
  by (simp only: poll_run.simps tick_from_empty [OF assms] prod.case dispatched_Cons
        dispatched_Nil effect.case append_Nil split_beta fst_conv snd_conv)

lemma poll_run_from_empty:
  "cached_or_empty commentsCache docId = [] \<Longrightarrow>
     poll_run agent docId (replicate k [] @ [N]) commentsCache
       = (replicate (Suc k) [], commentsCache(docId \<mapsto> N))"
proof (induction k arbitrary: commentsCache)
  case 0
  show ?case
    by (simp only: replicate.simps append_Nil poll_run_step_from_empty [OF "0.prems"]
          poll_run.simps(1) fst_conv snd_conv)
next
  case (Suc k)
  have e: "cached_or_empty (commentsCache(docId \<mapsto> [])) docId = []"
    by (simp add: cached_or_empty_def)
  have "poll_run agent docId (replicate (Suc k) [] @ [N]) commentsCache
     = ([] # fst (poll_run agent docId (replicate k [] @ [N]) (commentsCache(docId \<mapsto> []))),
        snd (poll_run agent docId (replicate k [] @ [N]) (commentsCache(docId \<mapsto> []))))"
    by (simp only: replicate.simps append_Cons poll_run_step_from_empty [OF Suc.prems])
  also have "\<dots> = ([] # replicate (Suc k) [], (commentsCache(docId \<mapsto> []))(docId \<mapsto> N))"
    by (simp only: Suc.IH [OF e] fst_conv snd_conv)
  also have "\<dots> = (replicate (Suc (Suc k)) [], commentsCache(docId \<mapsto> N))"
    by (simp only: replicate.simps fun_upd_upd)
  finally show ?case .
qed

text \<open>
  Claim C10, amended. The diff against an empty previous snapshot is empty for every fresh
  snapshot, as it is against an absent one. Hence, for a document whose stored snapshot is
  absent or empty, every tick up to and including the first one that fetches a non-empty
  snapshot hands nothing to the agent, and that snapshot is stored as the baseline. In
  every run of successful ticks that follow one another, a tick hands nothing to the agent
  when the snapshot stored by the tick before it is empty, and otherwise exactly the
  replies of its fetch whose non-empty identifier is not in that snapshot.
\<close>

theorem empty_snapshot_is_baseline:
  "detectNewComments [] N = []
   \<and> (cached_or_empty commentsCache docId = [] \<longrightarrow>
        poll_run agent docId (replicate k [] @ [N]) commentsCache
          = (replicate (Suc k) [], commentsCache(docId \<mapsto> N)))
   \<and> fst (poll_run agent docId fetches commentsCache)
       = map (\<lambda>(stored, fetched). if stored = [] then [] else new_replies stored fetched)
           (zip (cached_or_empty commentsCache docId # fetches) fetches)"
proof (intro conjI)
  show "detectNewComments [] N = []"
    by (simp add: detectNewComments_def)
  show "cached_or_empty commentsCache docId = [] \<longrightarrow>
        poll_run agent docId (replicate k [] @ [N]) commentsCache
          = (replicate (Suc k) [], commentsCache(docId \<mapsto> N))"
    by (simp add: poll_run_from_empty)
  have "(\<lambda>(stored, fetched). detectNewComments stored fetched)
      = (\<lambda>(stored, fetched). if stored = [] then [] else new_replies stored fetched)"
    by (simp add: fun_eq_iff detectNewComments_eq)
  then show "fst (poll_run agent docId fetches commentsCache)
       = map (\<lambda>(stored, fetched). if stored = [] then [] else new_replies stored fetched)
           (zip (cached_or_empty commentsCache docId # fetches) fetches)"
    by (simp only: poll_run_reports)
qed

text \<open>
  Two empty polls and then a poll with one reply; and a run in which the snapshot is
  empty again before the second reply appears, so that it is not reported either.
\<close>

theorem empty_snapshot_is_baseline_witness:
  "cached_or_empty Map.empty ''doc'' = []
   \<and> poll_run (\<lambda>i c d. None) ''doc'' [[], [], [ex_comment [ex_r1]]] Map.empty
       = ([[], [], []], [''doc'' \<mapsto> [ex_comment [ex_r1]]])
   \<and> fst (poll_run (\<lambda>i c d. None) ''doc''
            [[], [ex_comment [ex_r1]], [], [ex_comment [ex_r1, ex_r2]]] Map.empty)
       = [[], [], [], []]"
  using empty_snapshot_is_baseline [of "[ex_comment [ex_r1]]" Map.empty "''doc''" "\<lambda>i c d. None" 2
      "[[], [ex_comment [ex_r1]], [], [ex_comment [ex_r1, ex_r2]]]"]
  by (simp add: cached_or_empty_def numeral_2_eq_2 spec_defs ex_defs del: poll_run.simps)

text \<open>
  Claim C10 as first stated says that after an empty baseline, replies added later are
  never reported on any later tick. Only those of the first non-empty snapshot are
  absorbed: a reply that appears one tick later is reported.
\<close>

theorem later_replies_reported_counterexample:
  "fst (poll_run (\<lambda>i c d. None) ''doc'' [[], [ex_comment [ex_r1]], [ex_comment [ex_r1, ex_r2]]]
          Map.empty)
     = [[], [], [ex_comment [ex_r2]]]"
  by (simp add: ex_env_def invokeGetCommentsTools_def after_fetch_def cached_or_empty_def
        detectNewComments_eq spec_defs ex_defs dispatched_Cons dispatched_Nil
        dispatched_dispatch_all)


section \<open>The claims about the ticks in flight\<close>

lemmas server_defs = server_start_def set_phase_def dispatching_def fetching_docs_def
  after_fetch_def cached_or_empty_def ex_parse_def

lemma set_phase_comments: "comments (set_phase n ph s) = comments s"
  by (simp add: set_phase_def)

lemma step_comments:
  assumes "step parseItems ev s = Some s'" and "comments s' d = Some v"
  shows "comments s d = Some v
         \<or> (\<exists>n result. ev = FetchSettles n (Resolved result) \<and> parseItems result = Inr v)"
proof (cases ev)
  case (StartMonitor x)
  with assms show ?thesis by (auto split: if_splits)
next
  case (StopMonitor x)
  with assms show ?thesis by (auto split: if_splits)
next
  case (TimerFires x)
  with assms show ?thesis by (auto split: if_splits)
next
  case (FetchSettles n outcome)
  show ?thesis
  proof (cases outcome)
    case (Rejected e)
    with assms FetchSettles show ?thesis
      by (auto simp: set_phase_comments split: if_splits)
  next
    case (Resolved result)
    show ?thesis
    proof (cases "parseItems result")
      case (Inl e)
      with assms FetchSettles Resolved show ?thesis
        by (auto simp: set_phase_comments after_fetch_def split: if_splits)
    next
      case (Inr cur)
      with assms FetchSettles Resolved show ?thesis
        by (auto simp: set_phase_comments after_fetch_def split: if_splits)
    qed
  qed
next
  case (AgentSettles n)
  with assms show ?thesis
    by (auto simp: set_phase_comments split: if_splits phase.splits list.splits)
qed

lemma run_events_comments:
  "run_events parseItems evs s = Some final \<Longrightarrow> comments final d = Some v \<Longrightarrow>
     comments s d = Some v
     \<or> (\<exists>n result. FetchSettles n (Resolved result) \<in> set evs \<and> parseItems result = Inr v)"
proof (induction evs arbitrary: s)
  case Nil
  then show ?case by simp
next
  case (Cons ev evs)
  from Cons.prems(1) obtain s1 where s1: "step parseItems ev s = Some s1"
    and rest: "run_events parseItems evs s1 = Some final"
    by (auto split: option.splits)
  from Cons.IH [OF rest Cons.prems(2)] show ?case
  proof
    assume "comments s1 d = Some v"
    from step_comments [OF s1 this] show ?thesis by auto
  next
    assume "\<exists>n result. FetchSettles n (Resolved result) \<in> set evs \<and> parseItems result = Inr v"
    then show ?thesis by auto
  qed
qed










text \<open>
  Claim C4, amended. Ticks of the same document can overlap: the firing of the timer starts
  a tick whenever the document is monitored, whatever ticks are in flight. What is in one
  piece is the span from the arrival of a fetched response to the write of the snapshot:
  in one step the diff is taken against the snapshot stored at that moment and the
  fetched snapshot is stored, for that document only, and no other tick moves. Hence, after
  any sequence of events from the start of the server, a stored snapshot is the whole
  snapshot of one resolved fetch.
\<close>

theorem snapshot_write_is_one_step:
  "(d \<in> timers s \<longrightarrow>
      step parseItems (TimerFires d) s
        = Some (s\<lparr>ticks := ticks s @ [\<lparr>tick_doc = d, tick_phase = Fetching\<rparr>]\<rparr>))
   \<and> (n < length (ticks s) \<and> tick_phase (ticks s ! n) = Fetching
        \<and> parseItems result = Inr currentComments \<longrightarrow>
      (\<exists>s'. step parseItems (FetchSettles n (Resolved result)) s = Some s'
         \<and> comments s' (tick_doc (ticks s ! n)) = Some currentComments
         \<and> (\<forall>d'. d' \<noteq> tick_doc (ticks s ! n) \<longrightarrow> comments s' d' = comments s d')
         \<and> tick_phase (ticks s' ! n)
             = dispatching (detectNewComments
                 (cached_or_empty (comments s) (tick_doc (ticks s ! n))) currentComments)
         \<and> timers s' = timers s
         \<and> length (ticks s') = length (ticks s)
         \<and> (\<forall>m. m \<noteq> n \<longrightarrow> ticks s' ! m = ticks s ! m)))
   \<and> (run_events parseItems evs server_start = Some final \<and> comments final d = Some v \<longrightarrow>
        (\<exists>k response. FetchSettles k (Resolved response) \<in> set evs \<and> parseItems response = Inr v))"
proof (intro conjI)
  show "d \<in> timers s \<longrightarrow>
      step parseItems (TimerFires d) s
        = Some (s\<lparr>ticks := ticks s @ [\<lparr>tick_doc = d, tick_phase = Fetching\<rparr>]\<rparr>)"
    by simp
  show "n < length (ticks s) \<and> tick_phase (ticks s ! n) = Fetching
        \<and> parseItems result = Inr currentComments \<longrightarrow>
      (\<exists>s'. step parseItems (FetchSettles n (Resolved result)) s = Some s'
         \<and> comments s' (tick_doc (ticks s ! n)) = Some currentComments
         \<and> (\<forall>d'. d' \<noteq> tick_doc (ticks s ! n) \<longrightarrow> comments s' d' = comments s d')
         \<and> tick_phase (ticks s' ! n)
             = dispatching (detectNewComments
                 (cached_or_empty (comments s) (tick_doc (ticks s ! n))) currentComments)
         \<and> timers s' = timers s
         \<and> length (ticks s') = length (ticks s)
         \<and> (\<forall>m. m \<noteq> n \<longrightarrow> ticks s' ! m = ticks s ! m))"
    by (simp add: after_fetch_def set_phase_def)
  show "run_events parseItems evs server_start = Some final \<and> comments final d = Some v \<longrightarrow>
        (\<exists>k response. FetchSettles k (Resolved response) \<in> set evs \<and> parseItems response = Inr v)"
  proof
    assume a: "run_events parseItems evs server_start = Some final \<and> comments final d = Some v"
    then have "comments server_start d = Some v
       \<or> (\<exists>k response. FetchSettles k (Resolved response) \<in> set evs \<and> parseItems response = Inr v)"
      using run_events_comments [of parseItems evs server_start final d v] by blast
    then show "\<exists>k response. FetchSettles k (Resolved response) \<in> set evs \<and> parseItems response = Inr v"
      by (simp add: server_start_def)
  qed
qed

text \<open>
  A second tick starts while the first is fetching; the first, when its fetch resolves,
  stores the fetched snapshot and turns to the new reply; and the snapshot stored after
  the first poll of a server is the one that was fetched.
\<close>

theorem snapshot_write_is_one_step_witness:
  "''doc'' \<in> timers \<lparr>comments = [''doc'' \<mapsto> [ex_comment [ex_r1]]], timers = {''doc''},
                      ticks = [\<lparr>tick_doc = ''doc'', tick_phase = Fetching\<rparr>]\<rparr>
   \<and> (0::nat) < length (ticks \<lparr>comments = [''doc'' \<mapsto> [ex_comment [ex_r1]]], timers = {''doc''},
                      ticks = [\<lparr>tick_doc = ''doc'', tick_phase = Fetching\<rparr>]\<rparr>)
   \<and> ex_parse ''two'' = Inr [ex_comment [ex_r1, ex_r2]]
   \<and> step ex_parse (TimerFires ''doc'')
        \<lparr>comments = [''doc'' \<mapsto> [ex_comment [ex_r1]]], timers = {''doc''},
           ticks = [\<lparr>tick_doc = ''doc'', tick_phase = Fetching\<rparr>]\<rparr>
      = Some \<lparr>comments = [''doc'' \<mapsto> [ex_comment [ex_r1]]], timers = {''doc''},
           ticks = [\<lparr>tick_doc = ''doc'', tick_phase = Fetching\<rparr>,
                    \<lparr>tick_doc = ''doc'', tick_phase = Fetching\<rparr>]\<rparr>
   \<and> (\<exists>s'. step ex_parse (FetchSettles 0 (Resolved ''two''))
              \<lparr>comments = [''doc'' \<mapsto> [ex_comment [ex_r1]]], timers = {''doc''},
                 ticks = [\<lparr>tick_doc = ''doc'', tick_phase = Fetching\<rparr>]\<rparr> = Some s'
          \<and> comments s' ''doc'' = Some [ex_comment [ex_r1, ex_r2]]
          \<and> tick_phase (ticks s' ! 0) = Dispatching [ex_comment [ex_r2]])
   \<and> run_events ex_parse
        [StartMonitor ''doc'', TimerFires ''doc'', FetchSettles 0 (Resolved ''two'')] server_start
      = Some \<lparr>comments = [''doc'' \<mapsto> [ex_comment [ex_r1, ex_r2]]], timers = {''doc''},
                ticks = [\<lparr>tick_doc = ''doc'', tick_phase = Finished\<rparr>]\<rparr>
   \<and> (\<exists>k response.
          FetchSettles k (Resolved response)
            \<in> set [StartMonitor ''doc'', TimerFires ''doc'', FetchSettles 0 (Resolved ''two'')]
          \<and> ex_parse response = Inr [ex_comment [ex_r1, ex_r2]])"
proof -
  let ?s = "\<lparr>comments = [''doc'' \<mapsto> [ex_comment [ex_r1]]], timers = {''doc''},
              ticks = [\<lparr>tick_doc = ''doc'', tick_phase = Fetching\<rparr>]\<rparr>"
  let ?evs = "[StartMonitor ''doc'', TimerFires ''doc'', FetchSettles 0 (Resolved ''two'')]"
  let ?final = "\<lparr>comments = [''doc'' \<mapsto> [ex_comment [ex_r1, ex_r2]]], timers = {''doc''},
                ticks = [\<lparr>tick_doc = ''doc'', tick_phase = Finished\<rparr>]\<rparr>"
  have p: "ex_parse ''two'' = Inr [ex_comment [ex_r1, ex_r2]]"
    by (simp add: ex_parse_def)
  have d: "detectNewComments (cached_or_empty (comments ?s) ''doc'') [ex_comment [ex_r1, ex_r2]]
      = [ex_comment [ex_r2]]"
    by (simp add: cached_or_empty_def detectNewComments_eq ex_defs spec_defs)
  have r: "run_events ex_parse ?evs server_start = Some ?final"
    by (simp add: server_defs detectNewComments_def)
  have f: "comments ?final ''doc'' = Some [ex_comment [ex_r1, ex_r2]]"
    by simp
  from snapshot_write_is_one_step [of "''doc''" ?s ex_parse 0 "''two''" "[ex_comment [ex_r1, ex_r2]]"
      ?evs ?final "[ex_comment [ex_r1, ex_r2]]"] p d r f
  show ?thesis
    by (simp add: dispatching_def) blast
qed

text \<open>
  Claim C4 as first stated says that a tick of a document never begins before the earlier
  tick of that document has written its snapshot. Two firings of the timer give two ticks
  of one document inside their fetch. When the later tick is answered first, the earlier
  one then stores its older snapshot over the newer, and the next tick hands to the agent
  a reply that was handed to it before.
\<close>

theorem same_document_ticks_overlap_counterexample:
  "map_option fetching_docs
     (run_events ex_parse [StartMonitor ''doc'', TimerFires ''doc'', TimerFires ''doc''] server_start)
     = Some [''doc'', ''doc'']
   \<and> map_option (\<lambda>s. (comments s ''doc'', map tick_phase (ticks s)))
       (run_events ex_parse
          [StartMonitor ''doc'', TimerFires ''doc'', FetchSettles 0 (Resolved ''one''),
           TimerFires ''doc'', TimerFires ''doc'', FetchSettles 2 (Resolved ''two'')] server_start)
     = Some (Some [ex_comment [ex_r1, ex_r2]],
             [Finished, Fetching, Dispatching [ex_comment [ex_r2]]])
   \<and> map_option (\<lambda>s. (comments s ''doc'', map tick_phase (ticks s)))
       (run_events ex_parse
          [StartMonitor ''doc'', TimerFires ''doc'', FetchSettles 0 (Resolved ''one''),
           TimerFires ''doc'', TimerFires ''doc'', FetchSettles 2 (Resolved ''two''),
           AgentSettles 2, FetchSettles 1 (Resolved ''one'')] server_start)
     = Some (Some [ex_comment [ex_r1]], [Finished, Finished, Finished])
   \<and> map_option (\<lambda>s. (comments s ''doc'', map tick_phase (ticks s)))
       (run_events ex_parse
          [StartMonitor ''doc'', TimerFires ''doc'', FetchSettles 0 (Resolved ''one''),
           TimerFires ''doc'', TimerFires ''doc'', FetchSettles 2 (Resolved ''two''),
           AgentSettles 2, FetchSettles 1 (Resolved ''one''),
           TimerFires ''doc'', FetchSettles 3 (Resolved ''two'')] server_start)
     = Some (Some [ex_comment [ex_r1, ex_r2]],
             [Finished, Finished, Finished, Dispatching [ex_comment [ex_r2]]])"
  by (simp add: server_defs detectNewComments_eq ex_defs spec_defs
        numeral_2_eq_2 numeral_3_eq_3)

section \<open>The claims about the translation of chunks\<close>

lemmas run_defs = no_events_def emit_def andThen_def bindE_def js_if_def opt_prop_def js_or_def
lemmas sse_defs = sse_chunk_def sse_agent_part_def sse_tools_part_def sse_final_part_def
  sse_tool_call_def sse_tool_message_def
lemmas console_defs = console_chunk_def console_agent_part_def console_tools_part_def
  console_tool_call_def console_tool_message_def tool_response_def usage_report_def

lemma unrecognized_chunk_no_events:
  assumes "chunk \<noteq> JUndefined" and "chunk \<noteq> JNull"
    and "\<not> truthy (opt_prop chunk ''agent'')" and "\<not> truthy (opt_prop chunk ''tools'')"
    and "\<not> truthy (opt_prop chunk ''__end__'')"
  shows "sse_chunk JSON_parse chunk = ([], None) \<and> console_chunk JSON_parse chunk = ([], None)"
  using assms
  by (cases chunk) (simp_all add: sse_defs console_defs run_defs split: option.splits)

lemma consume_until_throw:
  assumes "\<forall>c \<in> set before. snd (body c) = None" and "body bad = (written, Some e)"
  shows "consume body (before @ bad # rest) ending
     = (concat (map (\<lambda>c. fst (body c)) before) @ written, Some e)"
  using assms(1)
proof (induction before)
  case Nil
  show ?case by (simp add: andThen_def assms(2))
next
  case (Cons c before)
  then have IH: "consume body (before @ bad # rest) ending
     = (concat (map (\<lambda>c. fst (body c)) before) @ written, Some e)"
    by simp
  from Cons.prems have "snd (body c) = None" by simp
  with IH show ?case by (simp add: andThen_def)
qed

text \<open>
  Claim C3, amended. The translation is not total. A chunk that is neither \<^verbatim>\<open>undefined\<close>
  nor \<^verbatim>\<open>null\<close> and has no truthy \<^verbatim>\<open>agent\<close>, \<^verbatim>\<open>tools\<close> or \<^verbatim>\<open>__end__\<close> field gives no event and
  does not throw, in both loops. When the processing of a chunk throws, the error is caught
  around the whole loop: the handler writes what was written so far, one error frame with
  the message, and ends the response; the console reporter prints the message and returns
  \<^verbatim>\<open>null\<close>. In both the chunks after the failing one are not read.
\<close>

theorem chunk_errors_end_the_stream:
  "(chunk \<noteq> JUndefined \<and> chunk \<noteq> JNull \<and> \<not> truthy (opt_prop chunk ''agent'')
      \<and> \<not> truthy (opt_prop chunk ''tools'') \<and> \<not> truthy (opt_prop chunk ''__end__'') \<longrightarrow>
      sse_chunk JSON_parse chunk = ([], None) \<and> console_chunk JSON_parse chunk = ([], None))
   \<and> ((\<forall>c \<in> set before. snd (sse_chunk JSON_parse c) = None)
        \<and> sse_chunk JSON_parse bad = (written, Some e) \<and> truthy message \<longrightarrow>
      agent_execute JSON_parse True message (Stream (before @ bad # rest) ending)
        = WriteHead 200 #
            frames (concat (map (\<lambda>c. fst (sse_chunk JSON_parse c)) before) @ written)
            @ [Write (Data (EvError (err_message e))), End])
   \<and> ((\<forall>c \<in> set before. snd (console_chunk JSON_parse c) = None)
        \<and> console_chunk JSON_parse bad = (printed, Some e) \<longrightarrow>
      processNewCommentWithAgent JSON_parse True c docId (Stream (before @ bad # rest) ending)
        = (SayInstruction (commentText c) docId #
             concat (map (\<lambda>c. fst (console_chunk JSON_parse c)) before) @ printed
             @ [SayFailed (err_message e)], None))"
proof (intro conjI impI)
  assume "chunk \<noteq> JUndefined \<and> chunk \<noteq> JNull \<and> \<not> truthy (opt_prop chunk ''agent'')
      \<and> \<not> truthy (opt_prop chunk ''tools'') \<and> \<not> truthy (opt_prop chunk ''__end__'')"
  then show "sse_chunk JSON_parse chunk = ([], None)"
    and "console_chunk JSON_parse chunk = ([], None)"
    using unrecognized_chunk_no_events [of chunk JSON_parse] by simp_all
next
  assume a: "(\<forall>c \<in> set before. snd (sse_chunk JSON_parse c) = None)
        \<and> sse_chunk JSON_parse bad = (written, Some e) \<and> truthy message"
  then have "consume (sse_chunk JSON_parse) (before @ bad # rest) ending
     = (concat (map (\<lambda>c. fst (sse_chunk JSON_parse c)) before) @ written, Some e)"
    using consume_until_throw [of before "sse_chunk JSON_parse" bad written e rest ending] by blast
  with a show "agent_execute JSON_parse True message (Stream (before @ bad # rest) ending)
        = WriteHead 200 #
            frames (concat (map (\<lambda>c. fst (sse_chunk JSON_parse c)) before) @ written)
            @ [Write (Data (EvError (err_message e))), End]"
    by (simp add: agent_execute_def frames_def)
next
  assume a: "(\<forall>c \<in> set before. snd (console_chunk JSON_parse c) = None)
        \<and> console_chunk JSON_parse bad = (printed, Some e)"
  then have "consume (console_chunk JSON_parse) (before @ bad # rest) ending
     = (concat (map (\<lambda>c. fst (console_chunk JSON_parse c)) before) @ printed, Some e)"
    using consume_until_throw [of before "console_chunk JSON_parse" bad printed e rest ending]
    by blast
  then show "processNewCommentWithAgent JSON_parse True c docId (Stream (before @ bad # rest) ending)
        = (SayInstruction (commentText c) docId #
             concat (map (\<lambda>c. fst (console_chunk JSON_parse c)) before) @ printed
             @ [SayFailed (err_message e)], None)"
    by (simp add: processNewCommentWithAgent_def)
qed

text \<open>
  A chunk of unknown shape, and a stream whose second chunk has an \<^verbatim>\<open>agent\<close> field without
  messages.
\<close>

theorem chunk_errors_end_the_stream_witness:
  "JObj [(''heartbeat'', JNum 1)] \<noteq> JUndefined \<and> JObj [(''heartbeat'', JNum 1)] \<noteq> JNull
   \<and> \<not> truthy (opt_prop (JObj [(''heartbeat'', JNum 1)]) ''agent'')
   \<and> \<not> truthy (opt_prop (JObj [(''heartbeat'', JNum 1)]) ''tools'')
   \<and> \<not> truthy (opt_prop (JObj [(''heartbeat'', JNum 1)]) ''__end__'')
   \<and> snd (sse_chunk ex_JSON_parse ex_message_chunk) = None
   \<and> snd (console_chunk ex_JSON_parse ex_message_chunk) = None
   \<and> sse_chunk ex_JSON_parse ex_bad_chunk = ([], Some TypeError)
   \<and> console_chunk ex_JSON_parse ex_bad_chunk = ([], Some TypeError)
   \<and> truthy (JStr ''go'')
   \<and> sse_chunk ex_JSON_parse (JObj [(''heartbeat'', JNum 1)]) = ([], None)
   \<and> agent_execute ex_JSON_parse True (JStr ''go'')
        (Stream ([ex_message_chunk] @ ex_bad_chunk # [ex_final_chunk]) None)
       = [WriteHead 200, Write (Data (EvAgent (JStr ''on it''))),
          Write (Data (EvError (err_message TypeError))), End]
   \<and> processNewCommentWithAgent ex_JSON_parse True (ex_comment [ex_r1]) ''doc''
        (Stream ([ex_message_chunk] @ ex_bad_chunk # [ex_final_chunk]) None)
       = ([SayInstruction ''add a title'' ''doc'', SayAgent (JStr ''on it''),
           SayFailed (err_message TypeError)], None)"
proof -
  have ok: "sse_chunk ex_JSON_parse ex_message_chunk = ([EvAgent (JStr ''on it'')], None)"
    "console_chunk ex_JSON_parse ex_message_chunk = ([SayAgent (JStr ''on it'')], None)"
    by (simp_all add: ex_message_chunk_def sse_defs console_defs run_defs)
  have bad: "sse_chunk ex_JSON_parse ex_bad_chunk = ([], Some TypeError)"
    "console_chunk ex_JSON_parse ex_bad_chunk = ([], Some TypeError)"
    by (simp_all add: ex_bad_chunk_def sse_defs console_defs run_defs)
  have ctext: "commentText (ex_comment [ex_r1]) = ''add a title''"
    by (simp add: commentText_def replies_of_def ex_defs)
  from ok bad ctext
    chunk_errors_end_the_stream [of "JObj [(''heartbeat'', JNum 1)]" ex_JSON_parse
      "[ex_message_chunk]" ex_bad_chunk "[]" TypeError "JStr ''go''" "[ex_final_chunk]" None
      "[]" "ex_comment [ex_r1]" "''doc''"]
  show ?thesis
    by (simp add: opt_prop_def frames_def)
qed

text \<open>
  Claim C3 as first stated says that processing a chunk of any shape never throws. The
  chunk with an \<^verbatim>\<open>agent\<close> field without messages throws in both loops.
\<close>

theorem malformed_agent_chunk_counterexample:
  "sse_chunk ex_JSON_parse ex_bad_chunk = ([], Some TypeError)
   \<and> console_chunk ex_JSON_parse ex_bad_chunk = ([], Some TypeError)"
  by (simp add: ex_bad_chunk_def sse_defs console_defs run_defs)

lemma sse_tool_call_ok:
  "JSON_parse (JStr arguments) = Inr v \<Longrightarrow>
     sse_tool_call JSON_parse
       (JObj [(''function'', JObj [(''name'', JStr name), (''arguments'', JStr arguments)])])
     = ([EvToolCall (JStr name) v], None)"
  by (simp add: sse_tool_call_def bindE_def emit_def)

lemma sse_tool_call_fails:
  "JSON_parse (JStr arguments) = Inl e \<Longrightarrow>
     sse_tool_call JSON_parse
       (JObj [(''function'', JObj [(''name'', JStr name), (''arguments'', JStr arguments)])])
     = ([], Some e)"
  by (simp add: sse_tool_call_def bindE_def emit_def)

lemma for_each_calls_ok:
  "\<forall>(name, arguments) \<in> set calls. JSON_parse (JStr arguments) = Inr (decoded arguments) \<Longrightarrow>
     for_each (sse_tool_call JSON_parse) (tool_call_objects calls)
     = (tool_call_events decoded calls, None)"
proof (induction calls)
  case Nil
  show ?case by (simp add: no_events_def tool_call_objects_def tool_call_events_def)
next
  case (Cons call calls)
  obtain name arguments where call: "call = (name, arguments)" by (cases call)
  from Cons.prems call have p: "JSON_parse (JStr arguments) = Inr (decoded arguments)" by simp
  from Cons have IH: "for_each (sse_tool_call JSON_parse) (tool_call_objects calls)
     = (tool_call_events decoded calls, None)"
    by simp
  from IH show ?case
    by (simp add: call sse_tool_call_ok [of JSON_parse arguments "decoded arguments" name, OF p] andThen_def tool_call_objects_def
          tool_call_events_def)
qed

lemma for_each_calls_until_error:
  assumes "\<forall>(name, arguments) \<in> set pre. JSON_parse (JStr arguments) = Inr (decoded arguments)"
    and "JSON_parse (JStr raw) = Inl e"
  shows "for_each (sse_tool_call JSON_parse) (tool_call_objects (pre @ (name, raw) # post))
     = (tool_call_events decoded pre, Some e)"
  using assms(1)
proof (induction pre)
  case Nil
  show ?case
    by (simp add: tool_call_objects_def tool_call_events_def sse_tool_call_fails [of JSON_parse raw e name, OF assms(2)]
          andThen_def)
next
  case (Cons call pre)
  obtain n a where call: "call = (n, a)" by (cases call)
  from Cons.prems call have p: "JSON_parse (JStr a) = Inr (decoded a)" by simp
  from Cons have IH: "for_each (sse_tool_call JSON_parse) (tool_call_objects (pre @ (name, raw) # post))
     = (tool_call_events decoded pre, Some e)"
    by simp
  from IH show ?case
    by (simp add: call sse_tool_call_ok [of JSON_parse a "decoded a" n, OF p] andThen_def tool_call_objects_def
          tool_call_events_def)
qed

lemma andThen_no_events: "andThen a no_events = a"
  by (cases a) (simp add: andThen_def no_events_def split: option.splits)

lemma sse_agent_part_tool_calls:
  "sse_agent_part JSON_parse (tool_calls_chunk content calls)
     = andThen (js_if (truthy content) (emit (EvAgent content)))
         (for_each (sse_tool_call JSON_parse) (tool_call_objects calls))"
  by (simp add: tool_calls_chunk_def tool_call_objects_def sse_agent_part_def bindE_def
        js_if_def opt_prop_def)

lemma sse_chunk_tool_calls:
  "sse_chunk JSON_parse (tool_calls_chunk content calls)
     = andThen (js_if (truthy content) (emit (EvAgent content)))
         (for_each (sse_tool_call JSON_parse) (tool_call_objects calls))"
proof -
  have t: "sse_tools_part (tool_calls_chunk content calls) = no_events"
    by (simp add: tool_calls_chunk_def sse_tools_part_def bindE_def js_if_def)
  have f: "sse_final_part (tool_calls_chunk content calls) = no_events"
    by (simp add: tool_calls_chunk_def sse_final_part_def bindE_def js_if_def)
  show ?thesis
    by (simp only: sse_chunk_def t f andThen_no_events sse_agent_part_tool_calls)
qed

lemma agent_content_then:
  "andThen (js_if (truthy content) (emit (EvAgent content))) (events, err)
     = ((if truthy content then [EvAgent content] else []) @ events, err)"
  by (simp add: andThen_def js_if_def emit_def no_events_def)

text \<open>
  Claim C7, amended. For a chunk whose last message asks for tool calls, the handler writes
  one tool-call event for each call, in the order listed, with the arguments parsed from
  their serialized form, as long as the arguments parse. When the arguments of a call do
  not parse, the error of \<^verbatim>\<open>JSON.parse\<close> is thrown out of the processing of the chunk: the
  events of the calls before it stay written, and no event is written for that call or
  for the calls after it.
\<close>

theorem tool_calls_until_parse_error:
  "((\<forall>(name, arguments) \<in> set calls. JSON_parse (JStr arguments) = Inr (decoded arguments)) \<longrightarrow>
      sse_chunk JSON_parse (tool_calls_chunk content calls)
        = ((if truthy content then [EvAgent content] else []) @ tool_call_events decoded calls, None))
   \<and> ((\<forall>(name, arguments) \<in> set pre. JSON_parse (JStr arguments) = Inr (decoded arguments))
        \<and> JSON_parse (JStr raw) = Inl e \<longrightarrow>
      sse_chunk JSON_parse (tool_calls_chunk content (pre @ (name, raw) # post))
        = ((if truthy content then [EvAgent content] else []) @ tool_call_events decoded pre, Some e))"
proof (intro conjI impI)
  assume "\<forall>(name, arguments) \<in> set calls. JSON_parse (JStr arguments) = Inr (decoded arguments)"
  from for_each_calls_ok [OF this]
  show "sse_chunk JSON_parse (tool_calls_chunk content calls)
        = ((if truthy content then [EvAgent content] else []) @ tool_call_events decoded calls, None)"
    by (simp only: sse_chunk_tool_calls agent_content_then)
next
  assume "(\<forall>(name, arguments) \<in> set pre. JSON_parse (JStr arguments) = Inr (decoded arguments))
        \<and> JSON_parse (JStr raw) = Inl e"
  then have "for_each (sse_tool_call JSON_parse) (tool_call_objects (pre @ (name, raw) # post))
     = (tool_call_events decoded pre, Some e)"
    using for_each_calls_until_error [of pre JSON_parse decoded raw e name post] by blast
  then show "sse_chunk JSON_parse (tool_calls_chunk content (pre @ (name, raw) # post))
        = ((if truthy content then [EvAgent content] else []) @ tool_call_events decoded pre, Some e)"
    by (simp only: sse_chunk_tool_calls agent_content_then)
qed

text \<open>
  A call whose arguments parse, followed by a call whose arguments do not.
\<close>

theorem tool_calls_until_parse_error_witness:
  "ex_JSON_parse (JStr ''{}'') = Inr (JObj [])
   \<and> ex_JSON_parse (JStr ''{'') = Inl SyntaxError
   \<and> sse_chunk ex_JSON_parse (tool_calls_chunk (JStr ''on it'') [(''docx_create'', ''{}'')])
       = ([EvAgent (JStr ''on it''), EvToolCall (JStr ''docx_create'') (JObj [])], None)
   \<and> sse_chunk ex_JSON_parse
        (tool_calls_chunk (JStr ''on it'') ([(''docx_create'', ''{}'')] @ (''docx_update'', ''{'') # []))
       = ([EvAgent (JStr ''on it''), EvToolCall (JStr ''docx_create'') (JObj [])], Some SyntaxError)"
proof -
  have a: "\<forall>(name, arguments) \<in> set [(''docx_create'', ''{}'')].
       ex_JSON_parse (JStr arguments) = Inr ((\<lambda>a. JObj []) arguments)"
    by (simp add: ex_JSON_parse_def)
  have b: "ex_JSON_parse (JStr ''{'') = Inl SyntaxError"
    by (simp add: ex_JSON_parse_def)
  from a b tool_calls_until_parse_error [of "[(''docx_create'', ''{}'')]" ex_JSON_parse
      "\<lambda>a. JObj []" "JStr ''on it''" "[(''docx_create'', ''{}'')]" "''{''" SyntaxError
      "''docx_update''" "[]"]
  show ?thesis
    by (simp add: tool_call_events_def)
qed

text \<open>
  Claim C7 as first stated says that arguments that do not parse are passed on raw in a
  tool-call event. For the arguments \<^verbatim>\<open>{\<close> the handler writes no tool-call event: the
  response ends with an error frame and the final chunk is not read.
\<close>

theorem unparsable_arguments_counterexample:
  "sse_chunk ex_JSON_parse (tool_calls_chunk JUndefined [(''docx_create'', ''{'')])
     = ([], Some SyntaxError)
   \<and> agent_execute ex_JSON_parse True (JStr ''go'')
        (Stream [tool_calls_chunk JUndefined [(''docx_create'', ''{'')], ex_final_chunk] None)
       = [WriteHead 200, Write (Data (EvError (err_message SyntaxError))), End]"
  by (simp add: ex_JSON_parse_def tool_calls_chunk_def ex_final_chunk_def sse_defs run_defs
        agent_execute_def)

text \<open>
  Claim C8 says that a tool result whose payload carries a failure code is reported as a
  failure with its message. The handler does not look at the payload: for every payload it
  writes the event with the tool name and \<^verbatim>\<open>success: true\<close>.
\<close>

theorem sse_tool_response_always_success:
  "sse_tool_message (ex_result_message payload)
     = ([EvToolResponse (JStr ''docx_create'') True], None)
   \<and> agent_execute JSON_parse True (JStr ''go'')
        (Stream [JObj [(''tools'', JObj [(''messages'', JArr [ex_result_message payload])])]] None)
       = [WriteHead 200, Write (Data (EvToolResponse (JStr ''docx_create'') True)), Write Done, End]"
  by (simp add: ex_result_message_def sse_defs run_defs agent_execute_def)

text \<open>
  The console reporter does parse the payload. It prints the raw payload when the parse
  throws or gives \<^verbatim>\<open>null\<close>, the data when the code is 0 and the data is truthy, and an
  error with the message or \<^verbatim>\<open>Unknown error\<close> otherwise, also when the code is 0 and there
  is no data.
\<close>

lemma console_tool_message_cases:
  "console_tool_message JSON_parse (ex_result_message payload) =
     ([SayToolCalled (JStr ''docx_create'') (JStr ''docx_create:call_1''),
       (case JSON_parse payload of
          Inl e \<Rightarrow> SayToolRaw payload
        | Inr content \<Rightarrow>
            if content = JUndefined \<or> content = JNull then SayToolRaw payload
            else if opt_prop content ''code'' = JNum 0 \<and> truthy (opt_prop content ''data'')
            then SayToolSuccess (opt_prop content ''data'')
            else SayToolError (js_or (opt_prop content ''msg'') (JStr ''Unknown error'')))],
      None)"
proof (cases "JSON_parse payload")
  case (Inl e)
  then show ?thesis
    by (simp add: ex_result_message_def console_defs run_defs)
next
  case (Inr content)
  then show ?thesis
    by (cases content) (simp_all add: ex_result_message_def console_defs run_defs)
qed

text \<open>
  The example agent has the loop of the console reporter. It parses the arguments of a
  tool call without a guard as the handler does, and it takes the code 0 for a success
  whether there is data or not.
\<close>

lemmas example_defs = example_chunk_def example_agent_part_def example_tools_part_def
  example_end_part_def example_tool_call_def example_tool_message_def example_tool_response_def

lemma example_unparsable_arguments:
  "JSON_parse (JStr raw) = Inl e \<Longrightarrow>
     runAgent JSON_parse (Stream [tool_calls_chunk JUndefined [(name, raw)], ex_final_chunk] None)
       = [ShowCallingTools, ShowTool (JStr name), ShowFailed (err_message e), ShowCleanup]"
  by (simp add: runAgent_def tool_calls_chunk_def ex_final_chunk_def example_defs run_defs)

lemma example_malformed_agent_chunk:
  "runAgent JSON_parse (Stream [ex_bad_chunk, ex_final_chunk] None)
     = [ShowFailed (err_message TypeError), ShowCleanup]"
  by (simp add: runAgent_def ex_bad_chunk_def ex_final_chunk_def example_defs run_defs)

lemma example_tool_message_cases:
  "example_tool_message JSON_parse (ex_result_message payload) =
     (ShowResponseFrom (JStr ''docx_create'') #
       (case JSON_parse payload of
          Inl e \<Rightarrow> [ShowRaw payload]
        | Inr content \<Rightarrow>
            if content = JUndefined \<or> content = JNull then [ShowRaw payload]
            else if opt_prop content ''code'' = JNum 0
            then ShowSuccess #
                   (if truthy (opt_prop content ''data'') then [ShowData (opt_prop content ''data'')]
                    else [])
            else [ShowError (js_or (opt_prop content ''msg'') (JStr ''Unknown error''))]),
      None)"
proof (cases "JSON_parse payload")
  case (Inl e)
  then show ?thesis
    by (simp add: ex_result_message_def example_defs run_defs)
next
  case (Inr content)
  then show ?thesis
    by (cases content) (simp_all add: ex_result_message_def example_defs run_defs)
qed

lemma clean_no_events: "clean no_events"
  by (simp add: clean_def no_events_def)

lemma clean_emit: "\<not> is_EvError ev \<Longrightarrow> clean (emit ev)"
  by (simp add: clean_def emit_def)

lemma clean_andThen: "clean a \<Longrightarrow> clean b \<Longrightarrow> clean (andThen a b)"
  by (auto simp: clean_def andThen_def split: option.splits)

lemma clean_bindE: "(\<And>v. clean (f v)) \<Longrightarrow> clean (bindE x f)"
  by (cases x) (simp_all add: clean_def bindE_def)

lemma clean_js_if: "clean r \<Longrightarrow> clean (js_if b r)"
  by (simp add: js_if_def clean_no_events)

lemma clean_for_each: "(\<And>x. clean (body x)) \<Longrightarrow> clean (for_each body xs)"
  by (induction xs) (simp_all add: clean_no_events clean_andThen)

lemmas clean_intros = clean_no_events clean_andThen clean_bindE clean_js_if clean_for_each

lemma clean_sse_chunk: "clean (sse_chunk JSON_parse chunk)"
  unfolding sse_defs
  by (intro clean_intros clean_emit) (simp_all add: is_EvError_def)

lemma clean_consume:
  "clean (consume (sse_chunk JSON_parse) chunks ending)"
proof (induction chunks)
  case Nil
  show ?case by (simp add: clean_def)
next
  case (Cons c cs)
  then show ?case by (simp add: clean_andThen clean_sse_chunk)
qed

lemma consume_no_throw:
  "\<forall>c \<in> set chunks. snd (body c) = None \<Longrightarrow>
     consume body chunks ending = (concat (map (\<lambda>c. fst (body c)) chunks), ending)"
  by (induction chunks) (simp_all add: andThen_def)

lemma count_frames_End: "count_list (frames events) End = 0"
  by (induction events) (simp_all add: frames_def)

lemma count_list_append: "count_list (xs @ ys) x = count_list xs x + count_list ys x"
  by (induction xs) simp_all

text \<open>
  Claim C9. For every finite stream, the handler writes the head, then one data frame for
  each event, none of them an error frame, and then either the frame \<^verbatim>\<open>[DONE]\<close>, when the
  stream has ended and no chunk has thrown, or one error frame with the message of the
  error, when the iteration or a chunk has thrown; then it ends the response. The response
  is ended exactly once, as the last effect. When no chunk throws, the events are those of
  all chunks in order, and the error, if any, is that of the iteration.
\<close>

theorem stream_sink_always_closes:
  assumes "reactAgent_set" and "truthy message"
  shows "\<exists>events.
           \<not> list_ex is_EvError events
           \<and> ((snd (consume (sse_chunk JSON_parse) chunks ending) = None
                \<and> agent_execute JSON_parse reactAgent_set message (Stream chunks ending)
                    = WriteHead 200 # frames events @ [Write Done, End])
               \<or> (\<exists>e. snd (consume (sse_chunk JSON_parse) chunks ending) = Some e
                    \<and> agent_execute JSON_parse reactAgent_set message (Stream chunks ending)
                        = WriteHead 200 # frames events
                            @ [Write (Data (EvError (err_message e))), End]))
           \<and> count_list (agent_execute JSON_parse reactAgent_set message (Stream chunks ending)) End = 1
           \<and> last (agent_execute JSON_parse reactAgent_set message (Stream chunks ending)) = End
           \<and> ((\<forall>c \<in> set chunks. snd (sse_chunk JSON_parse c) = None) \<longrightarrow>
                events = concat (map (\<lambda>c. fst (sse_chunk JSON_parse c)) chunks)
                \<and> snd (consume (sse_chunk JSON_parse) chunks ending) = ending)"
proof -
  obtain events err where r: "consume (sse_chunk JSON_parse) chunks ending = (events, err)"
    by (cases "consume (sse_chunk JSON_parse) chunks ending")
  have cl: "\<not> list_ex is_EvError events"
    using clean_consume [of JSON_parse chunks ending] r by (simp add: clean_def)
  have ex: "agent_execute JSON_parse reactAgent_set message (Stream chunks ending)
      = WriteHead 200 # frames events @
          (case err of None \<Rightarrow> [Write Done, End]
           | Some e \<Rightarrow> [Write (Data (EvError (err_message e))), End])"
    using assms r by (simp add: agent_execute_def frames_def split: option.splits)
  have cnt: "count_list (agent_execute JSON_parse reactAgent_set message (Stream chunks ending)) End = 1"
    by (simp add: ex count_list_append count_frames_End split: option.splits)
  have lst: "last (agent_execute JSON_parse reactAgent_set message (Stream chunks ending)) = End"
    by (simp add: ex split: option.splits)
  have all: "(\<forall>c \<in> set chunks. snd (sse_chunk JSON_parse c) = None) \<longrightarrow>
                events = concat (map (\<lambda>c. fst (sse_chunk JSON_parse c)) chunks)
                \<and> snd (consume (sse_chunk JSON_parse) chunks ending) = ending"
    using consume_no_throw [of chunks "sse_chunk JSON_parse" ending] r by auto
  show ?thesis
  proof (cases err)
    case None
    with r ex cl cnt lst all show ?thesis
      by (intro exI [of _ events]) auto
  next
    case (Some e)
    with r ex cl cnt lst all show ?thesis
      by (intro exI [of _ events]) auto
  qed
qed
text \<open>
  A stream of one final chunk.
\<close>

theorem stream_sink_always_closes_witness:
  "True \<and> truthy (JStr ''go'')
   \<and> agent_execute (\<lambda>v. Inl TypeError) True (JStr ''go'') (Stream [ex_final_chunk] None)
       = [WriteHead 200, Write (Data (EvFinal (JStr ''done''))), Write Done, End]
   \<and> count_list (agent_execute (\<lambda>v. Inl TypeError) True (JStr ''go'') (Stream [ex_final_chunk] None)) End = 1"
  using stream_sink_always_closes [of True "JStr ''go''" "\<lambda>v. Inl TypeError" "[ex_final_chunk]" None]
  by (simp add: ex_final_chunk_def sse_defs run_defs agent_execute_def frames_def)


end
